theory Spec2Isabelle
  imports Main "HOL-Library.Word" "HOL-Library.Stream"
begin

unbundle bit_operations_syntax

section \<open>Constants and macros of bash.c\<close>

text \<open>
  A C \<open>char\<close> is one byte.  The only places where the program looks at the value of a
  \<open>char\<close> are the \<open>switch\<close> of \<open>get_cmd\<close>, whose case labels are 3, 4 and 13, and the
  NUL test of \<open>strlen\<close>; neither depends on whether \<open>char\<close> is signed, so a byte is an
  \<open>8 word\<close>.
\<close>

type_synonym cchar = "8 word"

definition DEFAULT_HISTORY_MAXLEN :: nat where
  "DEFAULT_HISTORY_MAXLEN = 30"

definition DEFAULT_CMD_MAXLEN :: nat where
  "DEFAULT_CMD_MAXLEN = 1024"

definition KEY_CTRL :: "cchar \<Rightarrow> cchar" where
  "KEY_CTRL k = k AND 0x1F"

definition KEY_ENTER :: cchar where
  "KEY_ENTER = 13"

definition KEY_ESCAPE :: cchar where
  "KEY_ESCAPE = 27"

definition KEY_BACKSPACE :: cchar where
  "KEY_BACKSPACE = 127"

text \<open>The bytes of a C string literal, without its terminating NUL.\<close>

definition cstr :: "string \<Rightarrow> cchar list" where
  "cstr s = map of_char s"

section \<open>The environment: terminal device, standard input and output\<close>

text \<open>
  \<open>struct termios\<close> of \<open><termios.h>\<close>: four flag words (\<open>tcflag_t\<close> is a 32-bit unsigned
  integer), the line discipline, the control characters and the two speeds.
\<close>

record termios =
  c_iflag :: "32 word"
  c_oflag :: "32 word"
  c_cflag :: "32 word"
  c_lflag :: "32 word"
  c_line :: cchar
  c_cc :: "cchar list"
  c_ispeed :: "32 word"
  c_ospeed :: "32 word"

text \<open>
  The flag macros of \<open><termios.h>\<close> that \<open>console_initialize\<close> uses.  Their values belong to the
  platform's header, not to the program, so they are a parameter of the model.
\<close>

record termios_h =
  ECHO :: "32 word"
  ICANON :: "32 word"
  ISIG :: "32 word"
  IEXTEN :: "32 word"
  BRKINT :: "32 word"
  ICRNL :: "32 word"
  INPCK :: "32 word"
  ISTRIP :: "32 word"
  IXON :: "32 word"
  OPOST :: "32 word"
  CS8 :: "32 word"

text \<open>
  One call of \<open>read(STDIN_FILENO, &c, 1)\<close> returns -1 (failure), 0 (end of file: nothing
  is stored into \<open>c\<close>) or 1 (one byte stored into \<open>c\<close>).
\<close>

datatype read_result = Read_fail | Read_eof | Read_byte cchar

text \<open>
  The world the program runs in: the outcomes of the successive \<open>read\<close> calls on standard
  input, the bytes written to standard output so far, the attributes the terminal driver
  currently has, and for the successive \<open>tcgetattr\<close>/\<open>tcsetattr\<close> calls whether the driver
  carries them out.  Output is appended at the \<open>printf\<close> that produces it, so \<open>fflush\<close>
  changes nothing in the model.
\<close>

record world =
  stdin :: "read_result stream"
  stdout :: "cchar list"
  tty :: termios
  tc_ok :: "bool stream"

definition printf :: "cchar list \<Rightarrow> world \<Rightarrow> world" where
  "printf bs w = w\<lparr>stdout := stdout w @ bs\<rparr>"

text \<open>
  \<open>tcgetattr(STDIN_FILENO, &t)\<close>: on success the terminal's attributes are stored into
  \<open>t\<close> and 0 is returned; on failure \<open>t\<close> keeps its content and -1 is returned.
\<close>

definition tcgetattr :: "termios \<Rightarrow> world \<Rightarrow> int \<times> termios \<times> world" where
  "tcgetattr t w =
     (if shd (tc_ok w) then (0, tty w, w\<lparr>tc_ok := stl (tc_ok w)\<rparr>)
      else (-1, t, w\<lparr>tc_ok := stl (tc_ok w)\<rparr>))"

text \<open>
  \<open>tcsetattr(STDIN_FILENO, TCSAFLUSH, &t)\<close>: on success the terminal takes the attributes
  \<open>t\<close> and 0 is returned; on failure the terminal is unchanged and -1 is returned.  That
  \<open>TCSAFLUSH\<close> also throws away input that has arrived but was not read is not modelled:
  \<open>stdin\<close> holds what the \<open>read\<close> calls of the program will get.
\<close>

definition tcsetattr :: "termios \<Rightarrow> world \<Rightarrow> int \<times> world" where
  "tcsetattr t w =
     (if shd (tc_ok w) then (0, w\<lparr>tty := t, tc_ok := stl (tc_ok w)\<rparr>)
      else (-1, w\<lparr>tc_ok := stl (tc_ok w)\<rparr>))"

section \<open>The console context\<close>

text \<open>\<open>pp_history\<close> is a pointer that the program never sets; \<open>None\<close> is the null pointer.\<close>

record console_t =
  old_console :: termios
  new_console :: termios
  pp_history :: "cchar list list option"
  history_max :: nat

subsection \<open>console_initialize\<close>

definition console_initialize ::
  "termios_h \<Rightarrow> console_t option \<Rightarrow> world \<Rightarrow> int \<times> console_t option \<times> world" where
  "console_initialize h p_console w =
     (case p_console of
        None \<Rightarrow> (-1, None, w)
      | Some con \<Rightarrow>
          (case tcgetattr (old_console con) w of
             (r1, t_old, w1) \<Rightarrow>
               let con1 = con\<lparr>old_console := t_old\<rparr> in
               if r1 = -1 then (-1, Some con1, w1)
               else
                 (case tcgetattr (new_console con1) w1 of
                    (r2, t_new, w2) \<Rightarrow>
                      let con2 = con1\<lparr>new_console := t_new\<rparr> in
                      if r2 = -1 then (-1, Some con2, w2)
                      else
                        let t_raw = t_new
                              \<lparr>c_lflag := c_lflag t_new AND
                                   NOT (ECHO h OR ICANON h OR ISIG h OR IEXTEN h),
                               c_iflag := c_iflag t_new AND
                                   NOT (BRKINT h OR ICRNL h OR INPCK h OR ISTRIP h OR IXON h),
                               c_oflag := c_oflag t_new AND NOT (OPOST h),
                               c_cflag := c_cflag t_new OR CS8 h\<rparr>;
                            con3 = con2\<lparr>new_console := t_raw\<rparr>
                        in (case tcsetattr t_raw w2 of
                              (r3, w3) \<Rightarrow>
                                if r3 = -1 then (-1, Some con3, w3)
                                else (0, Some con3, w3)))))"

subsection \<open>console_finalize\<close>

definition console_finalize :: "console_t option \<Rightarrow> world \<Rightarrow> world" where
  "console_finalize p_console w =
     (case p_console of
        None \<Rightarrow> w
      | Some con \<Rightarrow> snd (tcsetattr (old_console con) w))"

section \<open>get_cmd\<close>

text \<open>
  The local variables of \<open>get_cmd\<close> that the loop changes, together with the caller's
  buffer \<open>p_cmd\<close>.  \<open>size_t\<close> values are natural numbers: \<open>cmd_len\<close> and \<open>cmd_idx\<close> never
  pass \<open>DEFAULT_CMD_MAXLEN\<close>.  The variables \<open>e1\<close>, \<open>e2\<close>, \<open>p_cmd_copy\<close> and \<open>hist_idx\<close> are
  never read.
\<close>

record edit_state =
  p_cmd :: "cchar list"
  cmd_len :: nat
  cmd_idx :: nat

text \<open>\<open>for (size_t i = cmd_len; i > cmd_idx; --i) p_cmd[i] = p_cmd[i - 1];\<close>\<close>

function shift_chars :: "cchar list \<Rightarrow> nat \<Rightarrow> nat \<Rightarrow> cchar list" where
  "shift_chars p i idx =
     (if i > idx then shift_chars (p[i := p ! (i - 1)]) (i - 1) idx else p)"
  by pat_completeness auto
termination
  by (relation "measure (\<lambda>(p, i, idx). i - idx)") auto

text \<open>\<open>for (size_t i = cmd_idx; i < cmd_len; ++i) printf("%c", p_cmd[i]);\<close>\<close>

function print_following :: "cchar list \<Rightarrow> nat \<Rightarrow> nat \<Rightarrow> world \<Rightarrow> world" where
  "print_following p i len w =
     (if i < len then print_following p (i + 1) len (printf [p ! i] w) else w)"
  by pat_completeness auto
termination
  by (relation "measure (\<lambda>(p, i, len, w). len - i)") auto

text \<open>\<open>for (size_t i = cmd_idx; i < cmd_len; ++i) printf("\b");\<close>\<close>

function print_backspaces :: "nat \<Rightarrow> nat \<Rightarrow> world \<Rightarrow> world" where
  "print_backspaces i len w =
     (if i < len then print_backspaces (i + 1) len (printf [8] w) else w)"
  by pat_completeness auto
termination
  by (relation "measure (\<lambda>(i, len, w). len - i)") auto

text \<open>
  The \<open>default:\<close> branch of the \<open>switch\<close>: the bounds check, the echo, the shift, the
  store at the cursor, the two counters, and the re-rendering of what follows the cursor.
\<close>

definition default_case :: "cchar \<Rightarrow> edit_state \<Rightarrow> world \<Rightarrow> edit_state \<times> world" where
  "default_case c s w =
     (if cmd_len s \<ge> DEFAULT_CMD_MAXLEN then (s, w)
      else
        let w1 = printf [c] w;
            p1 = shift_chars (p_cmd s) (cmd_len s) (cmd_idx s);
            p2 = p1[cmd_idx s := c];
            len = cmd_len s + 1;
            idx = cmd_idx s + 1;
            w2 = print_following p2 idx len w1;
            w3 = print_backspaces idx len w2
        in (\<lparr>p_cmd = p2, cmd_len = len, cmd_idx = idx\<rparr>, w3))"

text \<open>
  One pass through the body of \<open>for (;;)\<close>: either \<open>goto EXIT\<close> with the status to return,
  or the next iteration.  \<open>status\<close> is the variable of that name, -1 since its
  declaration.  When \<open>read\<close> returns 0 it stores nothing, and \<open>c\<close> keeps the \<open>'\0'\<close>
  assigned at the top of the body.
\<close>

datatype loop_ctl = Exit int | Next

definition get_cmd_body :: "int \<Rightarrow> world \<Rightarrow> edit_state \<Rightarrow> loop_ctl \<times> edit_state \<times> world" where
  "get_cmd_body status w s =
     (let r = shd (stdin w);
          w0 = w\<lparr>stdin := stl (stdin w)\<rparr>
      in if r = Read_fail then (Exit status, s, w0)
         else
           let c = (case r of Read_byte b \<Rightarrow> b | _ \<Rightarrow> 0) in
           if c = KEY_CTRL (of_char CHR ''c'') then (Exit 1, s, printf (cstr ''^C'') w0)
           else if c = KEY_CTRL (of_char CHR ''d'') then (Exit status, s, w0)
           else if c = KEY_ENTER then (Exit 0, s, w0)
           else (case default_case c s w0 of (s', w') \<Rightarrow> (Next, s', w')))"

partial_function (option) get_cmd_loop ::
  "int \<Rightarrow> world \<Rightarrow> edit_state \<Rightarrow> (int \<times> edit_state \<times> world) option" where
  "get_cmd_loop status w s =
     (case get_cmd_body status w s of
        (Exit r, s', w') \<Rightarrow> Some (r, s', w')
      | (Next, s', w') \<Rightarrow> get_cmd_loop status w' s')"

text \<open>
  The loop cut off after at most \<open>n\<close> passes through its body: the variables and the
  world at that point, and whether \<open>get_cmd\<close> has left the loop by then.  It gives the
  intermediate states of a call, which the result of \<open>get_cmd_loop\<close> does not show.
\<close>

fun get_cmd_iterate ::
  "nat \<Rightarrow> int \<Rightarrow> world \<Rightarrow> edit_state \<Rightarrow> loop_ctl \<times> edit_state \<times> world" where
  "get_cmd_iterate 0 status w s = (Next, s, w)"
| "get_cmd_iterate (Suc n) status w s =
     (case get_cmd_body status w s of
        (Exit r, s', w') \<Rightarrow> (Exit r, s', w')
      | (Next, s', w') \<Rightarrow> get_cmd_iterate n status w' s')"

text \<open>
  \<open>get_cmd\<close> itself: the null checks, the initial values of the locals, the loop.  The
  result is the returned status, the buffer as the call leaves it, and the world; \<open>None\<close>
  means that the call never returns.
\<close>

definition get_cmd_init :: "cchar list \<Rightarrow> edit_state" where
  "get_cmd_init buf = \<lparr>p_cmd = buf, cmd_len = 0, cmd_idx = 0\<rparr>"

definition get_cmd ::
  "console_t option \<Rightarrow> cchar list option \<Rightarrow> world \<Rightarrow> (int \<times> cchar list option \<times> world) option" where
  "get_cmd p_console p_buf w =
     (case (p_console, p_buf) of
        (Some con, Some buf) \<Rightarrow>
          map_option (\<lambda>(r, s, w'). (r, Some (p_cmd s), w'))
            (get_cmd_loop (-1) w (get_cmd_init buf))
      | _ \<Rightarrow> Some (-1, p_buf, w))"

section \<open>console_run and main\<close>

text \<open>
  The caller's view of the buffer is that of a C string: \<open>strlen\<close> and \<open>printf("%s")\<close> read
  up to the first NUL.  A buffer without a NUL makes them read past its end, which is
  \<open>None\<close> here.
\<close>

definition c_string :: "cchar list \<Rightarrow> cchar list option" where
  "c_string p = (if 0 \<in> set p then Some (takeWhile (\<lambda>b. b \<noteq> 0) p) else None)"

definition strlen :: "cchar list \<Rightarrow> nat option" where
  "strlen p = map_option length (c_string p)"

datatype fault = Buffer_overread | Null_pointer

definition crlf :: "cchar list" where
  "crlf = [13, 10]"

definition VERSION_MAJOR :: nat where
  "VERSION_MAJOR = 0"

definition VERSION_MINOR :: nat where
  "VERSION_MINOR = 1"

text \<open>\<open>"Mike's bash clone v%d.%d\r\n"\<close> with the two version numbers, both below ten.\<close>

definition banner :: "cchar list" where
  "banner = cstr ''Mike'' @ [0x27] @ cstr ''s bash clone v''
            @ [of_nat (48 + VERSION_MAJOR)] @ cstr ''.'' @ [of_nat (48 + VERSION_MINOR)] @ crlf"

definition hint :: "cchar list" where
  "hint = cstr ''Press CTRL-D to exit.'' @ crlf"

text \<open>
  The part of the main loop's body that follows the call of \<open>get_cmd\<close>: \<open>break\<close>,
  \<open>continue\<close> after a cancelled command, or the echo of the command between quotes.
  Its argument is what \<open>get_cmd\<close> returned: the status, the buffer and the world.  The
  buffer is the array \<open>p_cmd\<close> of \<open>console_run\<close>, so it is never the null pointer there.
\<close>

datatype run_ctl = Break world | Continue world | Abort fault

definition console_run_dispatch :: "int \<times> cchar list option \<times> world \<Rightarrow> run_ctl" where
  "console_run_dispatch res =
     (case res of
        (status, p_buf, w) \<Rightarrow>
          let w1 = printf crlf w in
          if 0 > status then Break w1
          else
            (case p_buf of
               None \<Rightarrow> Abort Null_pointer
             | Some buf \<Rightarrow>
                 if status = 1 then
                   (case strlen buf of
                      None \<Rightarrow> Abort Buffer_overread
                    | Some n \<Rightarrow> Continue (if n = 0 then printf hint w1 else w1))
                 else
                   (case c_string buf of
                      None \<Rightarrow> Abort Buffer_overread
                    | Some line \<Rightarrow> Continue (printf ([0x27] @ line @ [0x27] @ crlf) w1))))"

text \<open>
  The main command loop: clear the buffer, print the prompt, get a command, dispatch.
  \<open>None\<close> means that the loop never ends.
\<close>

partial_function (option) console_run_loop ::
  "console_t option \<Rightarrow> world \<Rightarrow> (fault + world) option" where
  "console_run_loop p_console w =
     (case get_cmd p_console (Some (replicate DEFAULT_CMD_MAXLEN 0)) (printf (cstr ''$ '') w) of
        None \<Rightarrow> None
      | Some res \<Rightarrow>
          (case console_run_dispatch res of
             Break w' \<Rightarrow> Some (Inr w')
           | Abort f \<Rightarrow> Some (Inl f)
           | Continue w' \<Rightarrow> console_run_loop p_console w'))"

text \<open>
  \<open>console_run\<close>: with a null pointer or a failed \<open>console_initialize\<close> it goes straight to
  \<open>EXIT\<close>; otherwise the banner, the main loop and the farewell come first.  At \<open>EXIT\<close> it
  calls \<open>console_finalize\<close> in every case.
\<close>

definition console_run ::
  "termios_h \<Rightarrow> console_t option \<Rightarrow> world \<Rightarrow> (fault + console_t option \<times> world) option" where
  "console_run h p_console w =
     (case p_console of
        None \<Rightarrow> Some (Inr (None, console_finalize None w))
      | Some con \<Rightarrow>
          (case console_initialize h p_console w of
             (r, p_con, w1) \<Rightarrow>
               if r = -1 then Some (Inr (p_con, console_finalize p_con w1))
               else
                 (case console_run_loop p_con (printf banner w1) of
                    None \<Rightarrow> None
                  | Some (Inl f) \<Rightarrow> Some (Inl f)
                  | Some (Inr w2) \<Rightarrow>
                      Some (Inr (p_con, console_finalize p_con
                                          (printf (cstr ''Exiting...'' @ crlf) w2))))))"

text \<open>
  \<open>main\<close>: the initializer \<open>{ .history_max = DEFAULT_HISTORY_MAXLEN }\<close> zeroes every other
  member of the context.
\<close>

definition zero_termios :: termios where
  "zero_termios = \<lparr>c_iflag = 0, c_oflag = 0, c_cflag = 0, c_lflag = 0, c_line = 0,
                    c_cc = replicate 32 0, c_ispeed = 0, c_ospeed = 0\<rparr>"

definition main_console :: console_t where
  "main_console = \<lparr>old_console = zero_termios, new_console = zero_termios,
                    pp_history = None, history_max = DEFAULT_HISTORY_MAXLEN\<rparr>"

definition main :: "termios_h \<Rightarrow> world \<Rightarrow> (fault + int \<times> world) option" where
  "main h w =
     (case console_run h (Some main_console) w of
        None \<Rightarrow> None
      | Some (Inl f) \<Rightarrow> Some (Inl f)
      | Some (Inr (p_con, w')) \<Rightarrow> Some (Inr (0, w')))"

text \<open>
  A world for concrete runs: a terminal with all attributes zero that accepts every call,
  nothing printed yet, and an input that is at end of file unless a run replaces it.
\<close>

definition quiet_world :: world where
  "quiet_world = \<lparr>stdin = sconst Read_eof, stdout = [], tty = zero_termios,
                   tc_ok = sconst True\<rparr>"

text \<open>The values of the flag macros in the \<open><termios.h>\<close> of Linux, for concrete runs.\<close>

definition linux_termios_h :: termios_h where
  "linux_termios_h = \<lparr>ECHO = 0x8, ICANON = 0x2, ISIG = 0x1, IEXTEN = 0x8000, BRKINT = 0x2,
                       ICRNL = 0x100, INPCK = 0x10, ISTRIP = 0x20, IXON = 0x400, OPOST = 0x1,
                       CS8 = 0x30\<rparr>"

declare shift_chars.simps [simp del]
declare print_following.simps [simp del]
declare print_backspaces.simps [simp del]

section \<open>Facts about the loops and the body of get_cmd\<close>

lemma printf_simps [simp]:
  "stdin (printf bs w) = stdin w"
  "stdout (printf bs w) = stdout w @ bs"
  "tty (printf bs w) = tty w"
  "tc_ok (printf bs w) = tc_ok w"
  by (simp_all add: printf_def)

lemma shift_chars_none [simp]: "shift_chars p n n = p"
  by (subst shift_chars.simps) simp

lemma print_following_none [simp]: "print_following p n n w = w"
  by (subst print_following.simps) simp

lemma print_backspaces_none [simp]: "print_backspaces n n w = w"
  by (subst print_backspaces.simps) simp

lemma length_shift_chars [simp]: "length (shift_chars p i idx) = length p"
  by (induction p i idx rule: shift_chars.induct) (subst shift_chars.simps, simp)

lemma nth_shift_chars:
  "i < length p \<Longrightarrow> j < length p \<Longrightarrow>
   shift_chars p i idx ! j = (if idx < j \<and> j \<le> i then p ! (j - 1) else p ! j)"
proof (induction p i idx arbitrary: j rule: shift_chars.induct)
  case (1 p i idx)
  show ?case
  proof (cases "idx < i")
    case False
    then show ?thesis by (subst shift_chars.simps) auto
  next
    case True
    have "shift_chars p i idx ! j = shift_chars (p[i := p ! (i - 1)]) (i - 1) idx ! j"
      using True by (subst shift_chars.simps) simp
    also have "\<dots> = (if idx < j \<and> j \<le> i - 1 then (p[i := p ! (i - 1)]) ! (j - 1)
                       else (p[i := p ! (i - 1)]) ! j)"
      using True "1.prems" by (intro "1.IH") simp_all
    also have "\<dots> = (if idx < j \<and> j \<le> i then p ! (j - 1) else p ! j)"
      using True "1.prems" by (auto simp: nth_list_update)
    finally show ?thesis .
  qed
qed

lemma print_following_eq:
  "print_following p i len w = printf (map (\<lambda>k. p ! k) [i..<len]) w"
proof (induction p i len w rule: print_following.induct)
  case (1 p i len w)
  show ?case
  proof (cases "i < len")
    case True
    then show ?thesis
      using 1 by (subst print_following.simps) (simp add: printf_def upt_conv_Cons)
  next
    case False
    then show ?thesis by (subst print_following.simps) (simp add: printf_def)
  qed
qed

lemma print_backspaces_eq:
  "print_backspaces i len w = printf (replicate (len - i) 8) w"
proof (induction i len w rule: print_backspaces.induct)
  case (1 i len w)
  show ?case
  proof (cases "i < len")
    case True
    then have "len - i = Suc (len - (i + 1))" by simp
    then show ?thesis
      using 1 True by (subst print_backspaces.simps) (simp add: printf_def)
  next
    case False
    then show ?thesis by (subst print_backspaces.simps) (simp add: printf_def)
  qed
qed

lemma default_case_full:
  "DEFAULT_CMD_MAXLEN \<le> cmd_len s \<Longrightarrow> default_case c s w = (s, w)"
  by (simp add: default_case_def)

lemma default_case_insert:
  "cmd_len s < DEFAULT_CMD_MAXLEN \<Longrightarrow>
   default_case c s w =
     (\<lparr>p_cmd = (shift_chars (p_cmd s) (cmd_len s) (cmd_idx s))[cmd_idx s := c],
       cmd_len = cmd_len s + 1, cmd_idx = cmd_idx s + 1\<rparr>,
      printf ([c] @ map (\<lambda>k. (shift_chars (p_cmd s) (cmd_len s) (cmd_idx s))[cmd_idx s := c] ! k)
                     [cmd_idx s + 1..<cmd_len s + 1]
                  @ replicate (cmd_len s - cmd_idx s) 8) w)"
  by (simp add: default_case_def Let_def print_following_eq print_backspaces_eq printf_def)

lemma default_case_world [simp]:
  "stdin (snd (default_case c s w)) = stdin w"
  "tty (snd (default_case c s w)) = tty w"
  "tc_ok (snd (default_case c s w)) = tc_ok w"
  by (simp_all add: default_case_def Let_def print_following_eq print_backspaces_eq)

lemma get_cmd_body_fail:
  "shd (stdin w) = Read_fail \<Longrightarrow>
   get_cmd_body status w s = (Exit status, s, w\<lparr>stdin := stl (stdin w)\<rparr>)"
  by (simp add: get_cmd_body_def)

lemma get_cmd_body_ctrl_c:
  "shd (stdin w) = Read_byte 3 \<Longrightarrow>
   get_cmd_body status w s = (Exit 1, s, printf (cstr ''^C'') (w\<lparr>stdin := stl (stdin w)\<rparr>))"
  by (simp add: get_cmd_body_def KEY_CTRL_def)

lemma get_cmd_body_ctrl_d:
  "shd (stdin w) = Read_byte 4 \<Longrightarrow>
   get_cmd_body status w s = (Exit status, s, w\<lparr>stdin := stl (stdin w)\<rparr>)"
  by (simp add: get_cmd_body_def KEY_CTRL_def)

lemma get_cmd_body_enter:
  "shd (stdin w) = Read_byte 13 \<Longrightarrow>
   get_cmd_body status w s = (Exit 0, s, w\<lparr>stdin := stl (stdin w)\<rparr>)"
  by (simp add: get_cmd_body_def KEY_CTRL_def KEY_ENTER_def)

lemma get_cmd_body_other:
  "shd (stdin w) = Read_byte c \<Longrightarrow> c \<noteq> 3 \<Longrightarrow> c \<noteq> 4 \<Longrightarrow> c \<noteq> 13 \<Longrightarrow>
   get_cmd_body status w s =
     (Next, default_case c s (w\<lparr>stdin := stl (stdin w)\<rparr>))"
  by (simp add: get_cmd_body_def KEY_CTRL_def KEY_ENTER_def split: prod.splits)

lemma get_cmd_body_eof:
  "shd (stdin w) = Read_eof \<Longrightarrow>
   get_cmd_body status w s =
     (Next, default_case 0 s (w\<lparr>stdin := stl (stdin w)\<rparr>))"
  by (simp add: get_cmd_body_def KEY_CTRL_def KEY_ENTER_def split: prod.splits)

section \<open>Facts about the loop of get_cmd\<close>

lemma get_cmd_loop_exit:
  "get_cmd_body status w s = (Exit r, s', w') \<Longrightarrow> get_cmd_loop status w s = Some (r, s', w')"
  by (subst get_cmd_loop.simps) simp

lemma get_cmd_loop_next:
  "get_cmd_body status w s = (Next, s', w') \<Longrightarrow>
   get_cmd_loop status w s = get_cmd_loop status w' s'"
  by (subst get_cmd_loop.simps) simp

lemma get_cmd_loop_iterate:
  "get_cmd_iterate n status w s = (Exit r, s', w') \<Longrightarrow>
   get_cmd_loop status w s = Some (r, s', w')"
proof (induction n arbitrary: w s)
  case 0
  then show ?case by simp
next
  case (Suc n)
  obtain ctl s1 w1 where b: "get_cmd_body status w s = (ctl, s1, w1)"
    by (cases "get_cmd_body status w s") auto
  show ?case
  proof (cases ctl)
    case (Exit r1)
    with b Suc.prems show ?thesis by (simp add: get_cmd_loop_exit)
  next
    case Next
    with b Suc.prems have "get_cmd_iterate n status w1 s1 = (Exit r, s', w')" by simp
    then have "get_cmd_loop status w1 s1 = Some (r, s', w')" by (rule Suc.IH)
    with b Next show ?thesis by (simp add: get_cmd_loop_next)
  qed
qed

lemma get_cmd_iterate_loop:
  assumes "get_cmd_loop status w s = Some y"
  shows "\<exists>n. get_cmd_iterate n status w s = (Exit (fst y), snd y)"
proof (rule get_cmd_loop.raw_induct
    [where P = "\<lambda>status w s y. \<exists>n. get_cmd_iterate n status w s = (Exit (fst y), snd y)",
     OF _ assms], goal_cases)
  case (1 loop status w s y)
  obtain ctl s1 w1 where b: "get_cmd_body status w s = (ctl, s1, w1)"
    by (cases "get_cmd_body status w s") auto
  show ?case
  proof (cases ctl)
    case (Exit r1)
    with b 1(2) have "get_cmd_iterate (Suc 0) status w s = (Exit (fst y), snd y)" by auto
    then show ?thesis by blast
  next
    case Next
    with b 1(2) have "loop status w1 s1 = Some y" by simp
    then obtain n where "get_cmd_iterate n status w1 s1 = (Exit (fst y), snd y)"
      using 1(1) by blast
    with b Next have "get_cmd_iterate (Suc n) status w s = (Exit (fst y), snd y)" by simp
    then show ?thesis by blast
  qed
qed

text \<open>The reads that make the loop leave: a failure, Ctrl-C, Ctrl-D and Enter.\<close>

lemma get_cmd_body_Next_iff:
  "fst (get_cmd_body status w s) = Next \<longleftrightarrow>
   shd (stdin w) \<notin> {Read_fail, Read_byte 3, Read_byte 4, Read_byte 13}"
  by (cases "shd (stdin w)")
     (auto simp: get_cmd_body_def KEY_CTRL_def KEY_ENTER_def split: prod.splits)

lemma get_cmd_body_stdin:
  "stdin (snd (snd (get_cmd_body status w s))) = stl (stdin w)"
  by (cases "shd (stdin w)")
     (auto simp: get_cmd_body_def KEY_CTRL_def KEY_ENTER_def Let_def default_case_def
        print_following_eq print_backspaces_eq split: prod.splits)

lemma get_cmd_loop_returns_ending:
  assumes "get_cmd_loop status w s = Some y"
  shows "\<exists>n. stdin w !! n \<in> {Read_fail, Read_byte 3, Read_byte 4, Read_byte 13}"
proof (rule get_cmd_loop.raw_induct
    [where P = "\<lambda>status w s y.
                  \<exists>n. stdin w !! n \<in> {Read_fail, Read_byte 3, Read_byte 4, Read_byte 13}",
     OF _ assms], goal_cases)
  case (1 loop status w s y)
  obtain ctl s1 w1 where b: "get_cmd_body status w s = (ctl, s1, w1)"
    by (cases "get_cmd_body status w s") auto
  show ?case
  proof (cases ctl)
    case (Exit r1)
    with b have "fst (get_cmd_body status w s) \<noteq> Next" by simp
    then have "stdin w !! 0 \<in> {Read_fail, Read_byte 3, Read_byte 4, Read_byte 13}"
      by (simp add: get_cmd_body_Next_iff)
    then show ?thesis by blast
  next
    case Next
    with b 1(2) have "loop status w1 s1 = Some y" by simp
    then obtain n where "stdin w1 !! n \<in> {Read_fail, Read_byte 3, Read_byte 4, Read_byte 13}"
      using 1(1) by blast
    moreover have "stdin w1 = stl (stdin w)"
      using get_cmd_body_stdin [of status w s] b by simp
    ultimately have "stdin w !! Suc n \<in> {Read_fail, Read_byte 3, Read_byte 4, Read_byte 13}"
      by simp
    then show ?thesis by blast
  qed
qed

lemma get_cmd_loop_ending_returns:
  "stdin w !! n \<in> {Read_fail, Read_byte 3, Read_byte 4, Read_byte 13} \<Longrightarrow>
   \<exists>y. get_cmd_loop status w s = Some y"
proof (induction n arbitrary: w s)
  case 0
  then have "fst (get_cmd_body status w s) \<noteq> Next"
    by (simp add: get_cmd_body_Next_iff)
  then obtain r s1 w1 where "get_cmd_body status w s = (Exit r, s1, w1)"
    by (cases "get_cmd_body status w s"; cases "fst (get_cmd_body status w s)") auto
  then show ?case by (simp add: get_cmd_loop_exit)
next
  case (Suc n)
  obtain ctl s1 w1 where b: "get_cmd_body status w s = (ctl, s1, w1)"
    by (cases "get_cmd_body status w s") auto
  show ?case
  proof (cases ctl)
    case (Exit r1)
    with b show ?thesis by (simp add: get_cmd_loop_exit)
  next
    case Next
    have "stdin w1 = stl (stdin w)"
      using get_cmd_body_stdin [of status w s] b by simp
    with Suc.prems have "stdin w1 !! n \<in> {Read_fail, Read_byte 3, Read_byte 4, Read_byte 13}"
      by simp
    then obtain y where "get_cmd_loop status w1 s1 = Some y"
      using Suc.IH by blast
    moreover have "get_cmd_loop status w s = get_cmd_loop status w1 s1"
      using b Next by (simp add: get_cmd_loop_next)
    ultimately show ?thesis by metis
  qed
qed

lemma get_cmd_loop_eof_forever:
  "set xs \<inter> {3, 4, 13} = {} \<Longrightarrow>
   get_cmd_loop status (w\<lparr>stdin := map Read_byte xs @- sconst Read_eof\<rparr>) s = None"
proof (rule ccontr)
  assume xs: "set xs \<inter> {3, 4, 13} = {}"
  assume "get_cmd_loop status (w\<lparr>stdin := map Read_byte xs @- sconst Read_eof\<rparr>) s \<noteq> None"
  then obtain y where
    "get_cmd_loop status (w\<lparr>stdin := map Read_byte xs @- sconst Read_eof\<rparr>) s = Some y"
    by blast
  then obtain n where
    n: "(map Read_byte xs @- sconst Read_eof) !! n \<in> {Read_fail, Read_byte 3, Read_byte 4, Read_byte 13}"
    using get_cmd_loop_returns_ending by fastforce
  show False
  proof (cases "n < length xs")
    case True
    with n have "xs ! n \<in> {3, 4, 13}" by auto
    moreover from True have "xs ! n \<in> set xs" by simp
    ultimately show False using xs by blast
  next
    case False
    with n show False by simp
  qed
qed

section \<open>Typing at the end of the line\<close>

text \<open>
  With the cursor at the end of the line the buffer is the line typed so far followed by
  the rest of the caller's buffer, and a byte that takes the \<open>default:\<close> branch is
  appended.
\<close>

lemma default_case_append:
  assumes "length ys < DEFAULT_CMD_MAXLEN" and "length buf = DEFAULT_CMD_MAXLEN"
  shows "default_case c \<lparr>p_cmd = ys @ drop (length ys) buf, cmd_len = length ys,
                           cmd_idx = length ys\<rparr> w =
         (\<lparr>p_cmd = (ys @ [c]) @ drop (length (ys @ [c])) buf, cmd_len = length (ys @ [c]),
           cmd_idx = length (ys @ [c])\<rparr>, printf [c] w)"
proof -
  from assms have "length ys < length buf" by simp
  then have "drop (length ys) buf = buf ! length ys # drop (Suc (length ys)) buf"
    by (simp add: Cons_nth_drop_Suc)
  then have "(ys @ drop (length ys) buf)[length ys := c] = (ys @ [c]) @ drop (Suc (length ys)) buf"
    by (simp add: list_update_append)
  with assms show ?thesis
    by (simp add: default_case_def Let_def)
qed

lemma get_cmd_loop_typed:
  assumes "set xs \<inter> {3, 4, 13} = {}" and "length buf = DEFAULT_CMD_MAXLEN"
    and "length ys \<le> DEFAULT_CMD_MAXLEN"
  shows "get_cmd_loop status (w\<lparr>stdin := map Read_byte xs @- rest\<rparr>)
           \<lparr>p_cmd = ys @ drop (length ys) buf, cmd_len = length ys, cmd_idx = length ys\<rparr> =
         get_cmd_loop status
           (w\<lparr>stdin := rest,
              stdout := stdout w @ take (DEFAULT_CMD_MAXLEN - length ys) xs\<rparr>)
           \<lparr>p_cmd = (ys @ take (DEFAULT_CMD_MAXLEN - length ys) xs)
                     @ drop (length (ys @ take (DEFAULT_CMD_MAXLEN - length ys) xs)) buf,
             cmd_len = length (ys @ take (DEFAULT_CMD_MAXLEN - length ys) xs),
             cmd_idx = length (ys @ take (DEFAULT_CMD_MAXLEN - length ys) xs)\<rparr>"
  using assms
proof (induction xs arbitrary: ys w)
  case Nil
  have "w\<lparr>stdin := rest, stdout := stdout w\<rparr> = w\<lparr>stdin := rest\<rparr>"
    by (intro world.equality) simp_all
  then show ?case by simp
next
  case (Cons c xs)
  let ?w = "w\<lparr>stdin := map Read_byte (c # xs) @- rest\<rparr>"
  let ?s = "\<lparr>p_cmd = ys @ drop (length ys) buf, cmd_len = length ys, cmd_idx = length ys\<rparr>"
  let ?wr = "?w\<lparr>stdin := stl (stdin ?w)\<rparr>"
  from Cons.prems have c: "c \<noteq> 3" "c \<noteq> 4" "c \<noteq> 13" and xs: "set xs \<inter> {3, 4, 13} = {}"
    by auto
  have body: "get_cmd_body status ?w ?s = (Next, default_case c ?s ?wr)"
    using c by (intro get_cmd_body_other) simp_all
  show ?case
  proof (cases "length ys < DEFAULT_CMD_MAXLEN")
    case True
    let ?ys = "ys @ [c]"
    let ?n = "DEFAULT_CMD_MAXLEN - length ?ys"
    let ?sa = "\<lparr>p_cmd = ?ys @ drop (length ?ys) buf, cmd_len = length ?ys,
                cmd_idx = length ?ys\<rparr>"
    have tk: "take (DEFAULT_CMD_MAXLEN - length ys) (c # xs) = c # take ?n xs"
    proof -
      from True have "DEFAULT_CMD_MAXLEN - length ys = Suc ?n" by simp
      then show ?thesis by (simp only: take_Suc_Cons)
    qed
    have "default_case c ?s ?wr = (?sa, printf [c] ?wr)"
      using True Cons.prems(2) by (rule default_case_append)
    with body have "get_cmd_loop status ?w ?s = get_cmd_loop status (printf [c] ?wr) ?sa"
      by (intro get_cmd_loop_next) simp
    also have "printf [c] ?wr = (printf [c] w)\<lparr>stdin := map Read_byte xs @- rest\<rparr>"
      by (intro world.equality) (simp_all add: printf_def)
    also have "get_cmd_loop status ((printf [c] w)\<lparr>stdin := map Read_byte xs @- rest\<rparr>) ?sa =
               get_cmd_loop status
                 ((printf [c] w)\<lparr>stdin := rest,
                    stdout := stdout (printf [c] w) @ take ?n xs\<rparr>)
                 \<lparr>p_cmd = (?ys @ take ?n xs) @ drop (length (?ys @ take ?n xs)) buf,
                   cmd_len = length (?ys @ take ?n xs),
                   cmd_idx = length (?ys @ take ?n xs)\<rparr>"
      using True xs Cons.prems(2) by (intro Cons.IH) simp_all
    also have "(printf [c] w)\<lparr>stdin := rest, stdout := stdout (printf [c] w) @ take ?n xs\<rparr> =
               w\<lparr>stdin := rest,
                 stdout := stdout w @ take (DEFAULT_CMD_MAXLEN - length ys) (c # xs)\<rparr>"
      by (intro world.equality) (simp_all add: printf_def tk)
    also have "?ys @ take ?n xs = ys @ take (DEFAULT_CMD_MAXLEN - length ys) (c # xs)"
      by (simp add: tk)
    finally show ?thesis .
  next
    case False
    with Cons.prems(3) have full: "length ys = DEFAULT_CMD_MAXLEN" by simp
    then have "default_case c ?s ?wr = (?s, ?wr)"
      by (simp add: default_case_full)
    with body have "get_cmd_loop status ?w ?s = get_cmd_loop status ?wr ?s"
      by (intro get_cmd_loop_next) simp
    also have "?wr = w\<lparr>stdin := map Read_byte xs @- rest\<rparr>"
      by (intro world.equality) simp_all
    also have "get_cmd_loop status (w\<lparr>stdin := map Read_byte xs @- rest\<rparr>) ?s =
           get_cmd_loop status
             (w\<lparr>stdin := rest, stdout := stdout w @ take (DEFAULT_CMD_MAXLEN - length ys) xs\<rparr>)
             \<lparr>p_cmd = (ys @ take (DEFAULT_CMD_MAXLEN - length ys) xs)
                     @ drop (length (ys @ take (DEFAULT_CMD_MAXLEN - length ys) xs)) buf,
               cmd_len = length (ys @ take (DEFAULT_CMD_MAXLEN - length ys) xs),
               cmd_idx = length (ys @ take (DEFAULT_CMD_MAXLEN - length ys) xs)\<rparr>"
      using xs Cons.prems(2,3) by (intro Cons.IH) simp_all
    finally show ?thesis using full by simp
  qed
qed

section \<open>A whole line typed at the end\<close>

lemma get_cmd_loop_line:
  assumes "set xs \<inter> {3, 4, 13} = {}" and "length buf = DEFAULT_CMD_MAXLEN"
  shows "get_cmd_loop status (w\<lparr>stdin := map Read_byte xs @- rest\<rparr>) (get_cmd_init buf) =
         get_cmd_loop status
           (w\<lparr>stdin := rest, stdout := stdout w @ take DEFAULT_CMD_MAXLEN xs\<rparr>)
           \<lparr>p_cmd = take DEFAULT_CMD_MAXLEN xs @ drop (length (take DEFAULT_CMD_MAXLEN xs)) buf,
             cmd_len = length (take DEFAULT_CMD_MAXLEN xs),
             cmd_idx = length (take DEFAULT_CMD_MAXLEN xs)\<rparr>"
  using get_cmd_loop_typed [OF assms, where ys = "[]" and status = status and w = w and rest = rest]
  by (simp add: get_cmd_init_def)

lemma get_cmd_loop_line_enter:
  assumes "set xs \<inter> {3, 4, 13} = {}" and "length buf = DEFAULT_CMD_MAXLEN"
  shows "get_cmd_loop status (w\<lparr>stdin := map Read_byte xs @- Read_byte 13 ## rest\<rparr>)
           (get_cmd_init buf) =
         Some (0,
           \<lparr>p_cmd = take DEFAULT_CMD_MAXLEN xs @ drop (length (take DEFAULT_CMD_MAXLEN xs)) buf,
             cmd_len = length (take DEFAULT_CMD_MAXLEN xs),
             cmd_idx = length (take DEFAULT_CMD_MAXLEN xs)\<rparr>,
           w\<lparr>stdin := rest, stdout := stdout w @ take DEFAULT_CMD_MAXLEN xs\<rparr>)"
  by (simp add: get_cmd_loop_line [OF assms] get_cmd_loop_exit get_cmd_body_enter)

section \<open>Round trip of a typed line\<close>

text \<open>
  Claim C1, as amended.  A sequence \<open>xs\<close> of at most \<open>DEFAULT_CMD_MAXLEN\<close> bytes, none of
  them 3, 4 or 13, followed by the byte 13: \<open>get_cmd\<close> returns 0, the first \<open>length xs\<close>
  bytes of the buffer are \<open>xs\<close>, \<open>cmd_len\<close> is \<open>length xs\<close>, the bytes were echoed, and
  the input after the 13 is left unread.  The bound on the length is needed: the claim
  as written, for every finite sequence, fails beyond it (see the counterexample).
\<close>

theorem get_cmd_round_trip:
  assumes "set xs \<inter> {3, 4, 13} = {}" and "length xs \<le> DEFAULT_CMD_MAXLEN"
    and "length buf = DEFAULT_CMD_MAXLEN"
  shows "get_cmd_loop (-1) (w\<lparr>stdin := map Read_byte xs @- Read_byte 13 ## rest\<rparr>)
           (get_cmd_init buf) =
         Some (0, \<lparr>p_cmd = xs @ drop (length xs) buf, cmd_len = length xs, cmd_idx = length xs\<rparr>,
               w\<lparr>stdin := rest, stdout := stdout w @ xs\<rparr>)
       \<and> get_cmd (Some con) (Some buf)
           (w\<lparr>stdin := map Read_byte xs @- Read_byte 13 ## rest\<rparr>) =
         Some (0, Some (xs @ drop (length xs) buf), w\<lparr>stdin := rest, stdout := stdout w @ xs\<rparr>)
       \<and> take (length xs) (xs @ drop (length xs) buf) = xs"
  using assms(2) by (simp add: get_cmd_def get_cmd_loop_line_enter [OF assms(1,3)])

theorem get_cmd_round_trip_witness:
  "set [0x6C, 0x73 :: cchar] \<inter> {3, 4, 13} = {}
   \<and> length [0x6C, 0x73 :: cchar] \<le> DEFAULT_CMD_MAXLEN
   \<and> length (replicate DEFAULT_CMD_MAXLEN (0 :: cchar)) = DEFAULT_CMD_MAXLEN
   \<and> get_cmd (Some main_console) (Some (replicate DEFAULT_CMD_MAXLEN 0))
        (quiet_world\<lparr>stdin := map Read_byte [0x6C, 0x73] @- Read_byte 13 ## sconst Read_eof\<rparr>) =
      Some (0, Some ([0x6C, 0x73] @ replicate 1022 0),
            quiet_world\<lparr>stdin := sconst Read_eof, stdout := [0x6C, 0x73]\<rparr>)"
  using get_cmd_round_trip [where xs = "[0x6C, 0x73]" and buf = "replicate DEFAULT_CMD_MAXLEN 0"
      and w = quiet_world and rest = "sconst Read_eof" and con = main_console]
  by (simp add: DEFAULT_CMD_MAXLEN_def quiet_world_def)

text \<open>
  With 1025 bytes \<open>a\<close> before the 13, the call returns 0 with a line of 1024 bytes: the
  last byte typed was dropped by the bounds check, so the content is not the input.
\<close>

theorem get_cmd_round_trip_counterexample:
  "get_cmd_loop (-1)
     (quiet_world\<lparr>stdin := map Read_byte (replicate 1025 0x61) @- Read_byte 13 ## sconst Read_eof\<rparr>)
     (get_cmd_init (replicate DEFAULT_CMD_MAXLEN 0)) =
   Some (0, \<lparr>p_cmd = replicate 1024 0x61, cmd_len = 1024, cmd_idx = 1024\<rparr>,
         quiet_world\<lparr>stdin := sconst Read_eof, stdout := replicate 1024 0x61\<rparr>)
   \<and> replicate 1024 0x61 \<noteq> replicate 1025 (0x61 :: cchar)"
proof -
  have "set (replicate 1025 (0x61 :: cchar)) \<inter> {3, 4, 13} = {}" by simp
  moreover have "length (replicate DEFAULT_CMD_MAXLEN (0 :: cchar)) = DEFAULT_CMD_MAXLEN" by simp
  ultimately have "get_cmd_loop (-1)
     (quiet_world\<lparr>stdin := map Read_byte (replicate 1025 0x61) @- Read_byte 13 ## sconst Read_eof\<rparr>)
     (get_cmd_init (replicate DEFAULT_CMD_MAXLEN 0)) =
     Some (0,
           \<lparr>p_cmd = take DEFAULT_CMD_MAXLEN (replicate 1025 0x61)
                     @ drop (length (take DEFAULT_CMD_MAXLEN (replicate 1025 (0x61 :: cchar))))
                         (replicate DEFAULT_CMD_MAXLEN 0),
             cmd_len = length (take DEFAULT_CMD_MAXLEN (replicate 1025 (0x61 :: cchar))),
             cmd_idx = length (take DEFAULT_CMD_MAXLEN (replicate 1025 (0x61 :: cchar)))\<rparr>,
           quiet_world\<lparr>stdin := sconst Read_eof,
             stdout := stdout quiet_world @ take DEFAULT_CMD_MAXLEN (replicate 1025 0x61)\<rparr>)"
    by (rule get_cmd_loop_line_enter)
  moreover have "replicate 1024 0x61 \<noteq> replicate 1025 (0x61 :: cchar)"
    by simp
  ultimately show ?thesis
    by (simp add: DEFAULT_CMD_MAXLEN_def quiet_world_def)
qed

section \<open>The ways out of the loop after a typed line\<close>

lemma get_cmd_loop_line_ctrl_c:
  assumes "set xs \<inter> {3, 4, 13} = {}" and "length buf = DEFAULT_CMD_MAXLEN"
  shows "get_cmd_loop status (w\<lparr>stdin := map Read_byte xs @- Read_byte 3 ## rest\<rparr>)
           (get_cmd_init buf) =
         Some (1,
           \<lparr>p_cmd = take DEFAULT_CMD_MAXLEN xs @ drop (length (take DEFAULT_CMD_MAXLEN xs)) buf,
             cmd_len = length (take DEFAULT_CMD_MAXLEN xs),
             cmd_idx = length (take DEFAULT_CMD_MAXLEN xs)\<rparr>,
           w\<lparr>stdin := rest, stdout := stdout w @ take DEFAULT_CMD_MAXLEN xs @ cstr ''^C''\<rparr>)"
  by (simp add: get_cmd_loop_line [OF assms] get_cmd_loop_exit get_cmd_body_ctrl_c printf_def)

lemma get_cmd_loop_line_ctrl_d:
  assumes "set xs \<inter> {3, 4, 13} = {}" and "length buf = DEFAULT_CMD_MAXLEN"
  shows "get_cmd_loop status (w\<lparr>stdin := map Read_byte xs @- Read_byte 4 ## rest\<rparr>)
           (get_cmd_init buf) =
         Some (status,
           \<lparr>p_cmd = take DEFAULT_CMD_MAXLEN xs @ drop (length (take DEFAULT_CMD_MAXLEN xs)) buf,
             cmd_len = length (take DEFAULT_CMD_MAXLEN xs),
             cmd_idx = length (take DEFAULT_CMD_MAXLEN xs)\<rparr>,
           w\<lparr>stdin := rest, stdout := stdout w @ take DEFAULT_CMD_MAXLEN xs\<rparr>)"
  by (simp add: get_cmd_loop_line [OF assms] get_cmd_loop_exit get_cmd_body_ctrl_d)

lemma get_cmd_loop_line_fail:
  assumes "set xs \<inter> {3, 4, 13} = {}" and "length buf = DEFAULT_CMD_MAXLEN"
  shows "get_cmd_loop status (w\<lparr>stdin := map Read_byte xs @- Read_fail ## rest\<rparr>)
           (get_cmd_init buf) =
         Some (status,
           \<lparr>p_cmd = take DEFAULT_CMD_MAXLEN xs @ drop (length (take DEFAULT_CMD_MAXLEN xs)) buf,
             cmd_len = length (take DEFAULT_CMD_MAXLEN xs),
             cmd_idx = length (take DEFAULT_CMD_MAXLEN xs)\<rparr>,
           w\<lparr>stdin := rest, stdout := stdout w @ take DEFAULT_CMD_MAXLEN xs\<rparr>)"
  by (simp add: get_cmd_loop_line [OF assms] get_cmd_loop_exit get_cmd_body_fail)

lemma c_string_terminated:
  "0 \<notin> set xs \<Longrightarrow> c_string (xs @ 0 # ys) = Some xs"
  by (simp add: c_string_def takeWhile_append)

section \<open>End of file on standard input\<close>

lemma get_cmd_eof_forever:
  assumes "set xs \<inter> {3, 4, 13} = {}" and "stdin w = map Read_byte xs @- sconst Read_eof"
  shows "get_cmd (Some con) (Some buf) w = None"
proof -
  have "w = w\<lparr>stdin := map Read_byte xs @- sconst Read_eof\<rparr>"
    using assms(2) by (intro world.equality) simp_all
  then have "get_cmd_loop (-1) w (get_cmd_init buf) = None"
    using get_cmd_loop_eof_forever [OF assms(1), of "-1" w "get_cmd_init buf"] by simp
  then show ?thesis by (simp add: get_cmd_def)
qed

lemma console_run_loop_eof_forever:
  assumes "set xs \<inter> {3, 4, 13} = {}" and "stdin w = map Read_byte xs @- sconst Read_eof"
  shows "console_run_loop (Some con) w = None"
proof -
  have "stdin (printf (cstr ''$ '') w) = map Read_byte xs @- sconst Read_eof"
    using assms(2) by simp
  with assms(1) have "get_cmd (Some con) (Some (replicate DEFAULT_CMD_MAXLEN 0))
                        (printf (cstr ''$ '') w) = None"
    by (rule get_cmd_eof_forever)
  then show ?thesis by (subst console_run_loop.simps) simp
qed

lemma console_initialize_stdin:
  "stdin (snd (snd (console_initialize h p w))) = stdin w"
  by (cases p)
     (simp_all add: console_initialize_def tcgetattr_def tcsetattr_def Let_def)

lemma console_initialize_Some:
  "\<exists>con'. fst (snd (console_initialize h (Some con) w)) = Some con'"
  by (simp add: console_initialize_def tcgetattr_def tcsetattr_def Let_def)

lemma main_eof_forever:
  assumes "set xs \<inter> {3, 4, 13} = {}" and "stdin w = map Read_byte xs @- sconst Read_eof"
    and "fst (console_initialize h (Some main_console) w) = 0"
  shows "main h w = None"
proof -
  obtain r p_con w1 where ini: "console_initialize h (Some main_console) w = (r, p_con, w1)"
    by (cases "console_initialize h (Some main_console) w") auto
  with assms(3) have r: "r = 0" by simp
  from ini console_initialize_Some [of h main_console w] obtain con' where p: "p_con = Some con'"
    by auto
  from ini console_initialize_stdin [of h "Some main_console" w] assms(2)
  have "stdin (printf banner w1) = map Read_byte xs @- sconst Read_eof"
    by simp
  with assms(1) have "console_run_loop (Some con') (printf banner w1) = None"
    by (rule console_run_loop_eof_forever)
  with ini r p show ?thesis
    by (simp add: main_def console_run_def)
qed

text \<open>
  Claim C2 fails on the code.  When the input stream is closed, \<open>read\<close> returns 0, which
  \<open>get_cmd\<close> does not test for: \<open>c\<close> is still \<open>'\0'\<close>, the \<open>default:\<close> branch takes it as a
  typed byte, and the loop goes on.  So after any bytes other than 3, 4 and 13, an input
  at end of file makes \<open>get_cmd\<close> run forever, and with it \<open>main\<close>, once
  \<open>console_initialize\<close> has succeeded.
\<close>

theorem get_cmd_spins_at_eof:
  assumes "set xs \<inter> {3, 4, 13} = {}"
  shows "get_cmd (Some con) (Some buf) (w\<lparr>stdin := map Read_byte xs @- sconst Read_eof\<rparr>) = None
       \<and> (fst (console_initialize h (Some main_console)
                 (w\<lparr>stdin := map Read_byte xs @- sconst Read_eof\<rparr>)) = 0 \<longrightarrow>
            main h (w\<lparr>stdin := map Read_byte xs @- sconst Read_eof\<rparr>) = None)"
proof (intro conjI impI)
  show "get_cmd (Some con) (Some buf) (w\<lparr>stdin := map Read_byte xs @- sconst Read_eof\<rparr>) = None"
    using assms by (rule get_cmd_eof_forever) simp
next
  assume "fst (console_initialize h (Some main_console)
                 (w\<lparr>stdin := map Read_byte xs @- sconst Read_eof\<rparr>)) = 0"
  with assms show "main h (w\<lparr>stdin := map Read_byte xs @- sconst Read_eof\<rparr>) = None"
    by (intro main_eof_forever [where xs = xs]) simp_all
qed

theorem get_cmd_spins_at_eof_witness:
  "set ([] :: cchar list) \<inter> {3, 4, 13} = {}
   \<and> get_cmd (Some main_console) (Some (replicate DEFAULT_CMD_MAXLEN 0))
        (quiet_world\<lparr>stdin := sconst Read_eof\<rparr>) = None
   \<and> fst (console_initialize linux_termios_h (Some main_console)
           (quiet_world\<lparr>stdin := sconst Read_eof\<rparr>)) = 0
   \<and> main linux_termios_h (quiet_world\<lparr>stdin := sconst Read_eof\<rparr>) = None"
proof -
  have ini: "fst (console_initialize linux_termios_h (Some main_console)
                   (quiet_world\<lparr>stdin := sconst Read_eof\<rparr>)) = 0"
    by (simp add: console_initialize_def tcgetattr_def tcsetattr_def Let_def quiet_world_def)
  show ?thesis
    using ini get_cmd_spins_at_eof [where xs = "[]" and con = main_console
      and buf = "replicate DEFAULT_CMD_MAXLEN 0" and w = quiet_world and h = linux_termios_h]
    by simp
qed

section \<open>Ctrl-C\<close>

text \<open>
  Claim C3, as amended.  After any bytes other than 3, 4 and 13, the byte 3 makes
  \<open>get_cmd\<close> print \<open>^C\<close> and return 1 at once, reading nothing further.  The buffer is not
  cleared: the bytes typed so far (the first \<open>DEFAULT_CMD_MAXLEN\<close> of them) are still in it
  when the caller gets it back.
\<close>

theorem get_cmd_cancel:
  assumes "set xs \<inter> {3, 4, 13} = {}" and "length buf = DEFAULT_CMD_MAXLEN"
  shows "get_cmd (Some con) (Some buf)
           (w\<lparr>stdin := map Read_byte xs @- Read_byte 3 ## rest\<rparr>) =
         Some (1,
           Some (take DEFAULT_CMD_MAXLEN xs @ drop (length (take DEFAULT_CMD_MAXLEN xs)) buf),
           w\<lparr>stdin := rest, stdout := stdout w @ take DEFAULT_CMD_MAXLEN xs @ cstr ''^C''\<rparr>)"
  by (simp add: get_cmd_def get_cmd_loop_line_ctrl_c [OF assms])

theorem get_cmd_cancel_witness:
  "set [0x6C, 0x73, 0x58 :: cchar] \<inter> {3, 4, 13} = {}
   \<and> length (replicate DEFAULT_CMD_MAXLEN (0 :: cchar)) = DEFAULT_CMD_MAXLEN
   \<and> get_cmd (Some main_console) (Some (replicate DEFAULT_CMD_MAXLEN 0))
        (quiet_world\<lparr>stdin := map Read_byte [0x6C, 0x73, 0x58] @- Read_byte 3 ## sconst Read_eof\<rparr>) =
      Some (1, Some ([0x6C, 0x73, 0x58] @ replicate 1021 0),
            quiet_world\<lparr>stdin := sconst Read_eof, stdout := [0x6C, 0x73, 0x58, 0x5E, 0x43]\<rparr>)"
  using get_cmd_cancel [where xs = "[0x6C, 0x73, 0x58]" and buf = "replicate DEFAULT_CMD_MAXLEN 0"
      and w = quiet_world and rest = "sconst Read_eof" and con = main_console]
  by (simp add: DEFAULT_CMD_MAXLEN_def quiet_world_def cstr_def)

text \<open>
  The spec's own scenario, \<open>lsX\<close> and Ctrl-C on a cleared buffer: the caller gets the
  buffer back holding the C string \<open>lsX\<close>, not an empty one.
\<close>

theorem get_cmd_cancel_counterexample:
  "get_cmd (Some main_console) (Some (replicate DEFAULT_CMD_MAXLEN 0))
     (quiet_world\<lparr>stdin := map Read_byte [0x6C, 0x73, 0x58] @- Read_byte 3 ## sconst Read_eof\<rparr>) =
   Some (1, Some ([0x6C, 0x73, 0x58] @ replicate 1021 0),
         quiet_world\<lparr>stdin := sconst Read_eof, stdout := [0x6C, 0x73, 0x58, 0x5E, 0x43]\<rparr>)
   \<and> c_string ([0x6C, 0x73, 0x58] @ replicate 1021 0) = Some [0x6C, 0x73, 0x58]
   \<and> [0x6C, 0x73, 0x58] @ replicate 1021 0 \<noteq> replicate DEFAULT_CMD_MAXLEN (0 :: cchar)"
proof -
  have "set [0x6C, 0x73, 0x58 :: cchar] \<inter> {3, 4, 13} = {}" by simp
  moreover have "length (replicate DEFAULT_CMD_MAXLEN (0 :: cchar)) = DEFAULT_CMD_MAXLEN" by simp
  ultimately have "get_cmd_loop (-1)
      (quiet_world\<lparr>stdin := map Read_byte [0x6C, 0x73, 0x58] @- Read_byte 3 ## sconst Read_eof\<rparr>)
      (get_cmd_init (replicate DEFAULT_CMD_MAXLEN 0)) =
    Some (1,
      \<lparr>p_cmd = take DEFAULT_CMD_MAXLEN [0x6C, 0x73, 0x58]
                @ drop (length (take DEFAULT_CMD_MAXLEN [0x6C, 0x73, 0x58 :: cchar]))
                    (replicate DEFAULT_CMD_MAXLEN 0),
        cmd_len = length (take DEFAULT_CMD_MAXLEN [0x6C, 0x73, 0x58 :: cchar]),
        cmd_idx = length (take DEFAULT_CMD_MAXLEN [0x6C, 0x73, 0x58 :: cchar])\<rparr>,
      quiet_world\<lparr>stdin := sconst Read_eof,
        stdout := stdout quiet_world @ take DEFAULT_CMD_MAXLEN [0x6C, 0x73, 0x58] @ cstr ''^C''\<rparr>)"
    by (rule get_cmd_loop_line_ctrl_c)
  then have "get_cmd (Some main_console) (Some (replicate DEFAULT_CMD_MAXLEN 0))
     (quiet_world\<lparr>stdin := map Read_byte [0x6C, 0x73, 0x58] @- Read_byte 3 ## sconst Read_eof\<rparr>) =
   Some (1, Some ([0x6C, 0x73, 0x58] @ replicate 1021 0),
         quiet_world\<lparr>stdin := sconst Read_eof, stdout := [0x6C, 0x73, 0x58, 0x5E, 0x43]\<rparr>)"
    by (simp add: get_cmd_def DEFAULT_CMD_MAXLEN_def quiet_world_def cstr_def)
  moreover have "replicate 1021 (0 :: cchar) = 0 # replicate 1020 0"
    by (simp add: replicate_Suc [symmetric] del: replicate_Suc)
  then have "c_string ([0x6C, 0x73, 0x58] @ replicate 1021 0) = Some [0x6C, 0x73, 0x58]"
    using c_string_terminated [of "[0x6C, 0x73, 0x58]" "replicate 1020 0"] by simp
  moreover have "[0x6C, 0x73, 0x58] @ replicate 1021 0 \<noteq> replicate DEFAULT_CMD_MAXLEN (0 :: cchar)"
    by (simp add: DEFAULT_CMD_MAXLEN_def Cons_replicate_eq)
  ultimately show ?thesis by simp
qed

section \<open>Ctrl-D and a failed read\<close>

text \<open>
  Claim C5, as amended.  After any bytes other than 3, 4 and 13, the byte 4 makes
  \<open>get_cmd\<close> return at once, with the status -1 that \<open>status\<close> has held since its
  declaration; as the first byte it leaves the buffer as the caller passed it and prints
  nothing.  A failed \<open>read\<close> at the same place returns the very same result, so the status
  does not tell the two apart.
\<close>

theorem get_cmd_ctrl_d:
  assumes "set xs \<inter> {3, 4, 13} = {}" and "length buf = DEFAULT_CMD_MAXLEN"
  shows "get_cmd (Some con) (Some buf)
           (w\<lparr>stdin := map Read_byte xs @- Read_byte 4 ## rest\<rparr>) =
         Some (-1,
           Some (take DEFAULT_CMD_MAXLEN xs @ drop (length (take DEFAULT_CMD_MAXLEN xs)) buf),
           w\<lparr>stdin := rest, stdout := stdout w @ take DEFAULT_CMD_MAXLEN xs\<rparr>)
       \<and> get_cmd (Some con) (Some buf) (w\<lparr>stdin := Read_byte 4 ## rest\<rparr>) =
         Some (-1, Some buf, w\<lparr>stdin := rest\<rparr>)
       \<and> get_cmd (Some con) (Some buf)
           (w\<lparr>stdin := map Read_byte xs @- Read_fail ## rest\<rparr>) =
         get_cmd (Some con) (Some buf)
           (w\<lparr>stdin := map Read_byte xs @- Read_byte 4 ## rest\<rparr>)"
proof -
  have "w\<lparr>stdin := rest, stdout := stdout w\<rparr> = w\<lparr>stdin := rest\<rparr>"
    by (intro world.equality) simp_all
  moreover have "set ([] :: cchar list) \<inter> {3, 4, 13} = {}" by simp
  ultimately have "get_cmd (Some con) (Some buf) (w\<lparr>stdin := Read_byte 4 ## rest\<rparr>) =
         Some (-1, Some buf, w\<lparr>stdin := rest\<rparr>)"
    using get_cmd_loop_line_ctrl_d [where xs = "[]" and buf = buf and w = w and rest = rest
        and status = "-1"] assms(2)
    by (simp add: get_cmd_def)
  then show ?thesis
    by (simp add: get_cmd_def get_cmd_loop_line_ctrl_d [OF assms] get_cmd_loop_line_fail [OF assms])
qed

theorem get_cmd_ctrl_d_witness:
  "set [0x6C, 0x73 :: cchar] \<inter> {3, 4, 13} = {}
   \<and> length (replicate DEFAULT_CMD_MAXLEN (0 :: cchar)) = DEFAULT_CMD_MAXLEN
   \<and> get_cmd (Some main_console) (Some (replicate DEFAULT_CMD_MAXLEN 0))
        (quiet_world\<lparr>stdin := map Read_byte [0x6C, 0x73] @- Read_byte 4 ## sconst Read_eof\<rparr>) =
      Some (-1, Some ([0x6C, 0x73] @ replicate 1022 0),
            quiet_world\<lparr>stdin := sconst Read_eof, stdout := [0x6C, 0x73]\<rparr>)
   \<and> get_cmd (Some main_console) (Some (replicate DEFAULT_CMD_MAXLEN 0))
        (quiet_world\<lparr>stdin := map Read_byte [0x6C, 0x73] @- Read_fail ## sconst Read_eof\<rparr>) =
      Some (-1, Some ([0x6C, 0x73] @ replicate 1022 0),
            quiet_world\<lparr>stdin := sconst Read_eof, stdout := [0x6C, 0x73]\<rparr>)"
  using get_cmd_ctrl_d [where xs = "[0x6C, 0x73]" and buf = "replicate DEFAULT_CMD_MAXLEN 0"
      and w = quiet_world and rest = "sconst Read_eof" and con = main_console]
  by (simp add: DEFAULT_CMD_MAXLEN_def quiet_world_def)

text \<open>
  Ctrl-D as the first byte and a failed first \<open>read\<close>: the same status, the same buffer,
  the same world.
\<close>

theorem get_cmd_ctrl_d_counterexample:
  "get_cmd (Some main_console) (Some (replicate DEFAULT_CMD_MAXLEN 0))
     (quiet_world\<lparr>stdin := Read_byte 4 ## sconst Read_eof\<rparr>) =
   Some (-1, Some (replicate DEFAULT_CMD_MAXLEN 0), quiet_world)
   \<and> get_cmd (Some main_console) (Some (replicate DEFAULT_CMD_MAXLEN 0))
     (quiet_world\<lparr>stdin := Read_fail ## sconst Read_eof\<rparr>) =
   Some (-1, Some (replicate DEFAULT_CMD_MAXLEN 0), quiet_world)"
proof -
  have q: "quiet_world\<lparr>stdin := sconst Read_eof\<rparr> = quiet_world"
    by (simp add: quiet_world_def)
  have "get_cmd_body (-1) (quiet_world\<lparr>stdin := Read_byte 4 ## sconst Read_eof\<rparr>)
          (get_cmd_init (replicate DEFAULT_CMD_MAXLEN 0)) =
        (Exit (-1), get_cmd_init (replicate DEFAULT_CMD_MAXLEN 0), quiet_world)"
    using q by (simp add: get_cmd_body_ctrl_d)
  moreover have "get_cmd_body (-1) (quiet_world\<lparr>stdin := Read_fail ## sconst Read_eof\<rparr>)
          (get_cmd_init (replicate DEFAULT_CMD_MAXLEN 0)) =
        (Exit (-1), get_cmd_init (replicate DEFAULT_CMD_MAXLEN 0), quiet_world)"
    using q by (simp add: get_cmd_body_fail)
  ultimately show ?thesis
    by (simp add: get_cmd_def get_cmd_loop_exit get_cmd_init_def)
qed

section \<open>Invariants of the loop\<close>

lemma get_cmd_body_preserves:
  assumes "\<And>c s w. P s \<Longrightarrow> P (fst (default_case c s w))" and "P s"
  shows "P (fst (snd (get_cmd_body status w s)))"
  using assms
  by (cases "shd (stdin w)")
     (auto simp: get_cmd_body_def Let_def split: prod.splits dest: assms(1) [where c = 0 and s = s]
        intro: ssubst [where P = P])

lemma get_cmd_iterate_preserves:
  assumes "\<And>c s w. P s \<Longrightarrow> P (fst (default_case c s w))" and "P s"
  shows "P (fst (snd (get_cmd_iterate n status w s)))"
  using assms(2)
proof (induction n arbitrary: w s)
  case 0
  then show ?case by simp
next
  case (Suc n)
  obtain ctl s1 w1 where b: "get_cmd_body status w s = (ctl, s1, w1)"
    by (cases "get_cmd_body status w s") auto
  have "P (fst (snd (get_cmd_body status w s)))"
    using assms(1) Suc.prems by (rule get_cmd_body_preserves)
  with b have s1: "P s1" by simp
  show ?case
  proof (cases ctl)
    case (Exit r)
    with b s1 show ?thesis by simp
  next
    case Next
    with b Suc.IH [OF s1] show ?thesis by simp
  qed
qed

lemma default_case_bounds:
  "cmd_idx s \<le> cmd_len s \<and> cmd_len s \<le> DEFAULT_CMD_MAXLEN \<Longrightarrow>
   cmd_idx (fst (default_case c s w)) \<le> cmd_len (fst (default_case c s w))
   \<and> cmd_len (fst (default_case c s w)) \<le> DEFAULT_CMD_MAXLEN"
  by (simp add: default_case_def Let_def)

lemma default_case_cursor_at_end:
  "cmd_idx s = cmd_len s \<Longrightarrow>
   cmd_idx (fst (default_case c s w)) = cmd_len (fst (default_case c s w))"
  by (simp add: default_case_def Let_def)

lemma get_cmd_iterate_bounds:
  "get_cmd_iterate n status w (get_cmd_init buf) = (ctl, s, w') \<Longrightarrow>
   cmd_idx s \<le> cmd_len s \<and> cmd_len s \<le> DEFAULT_CMD_MAXLEN"
  using get_cmd_iterate_preserves
    [where P = "\<lambda>s. cmd_idx s \<le> cmd_len s \<and> cmd_len s \<le> DEFAULT_CMD_MAXLEN"
       and s = "get_cmd_init buf" and n = n and status = status and w = w,
     OF default_case_bounds]
  by (simp add: get_cmd_init_def)

lemma get_cmd_iterate_cursor_at_end:
  "get_cmd_iterate n status w (get_cmd_init buf) = (ctl, s, w') \<Longrightarrow> cmd_idx s = cmd_len s"
  using get_cmd_iterate_preserves
    [where P = "\<lambda>s. cmd_idx s = cmd_len s"
       and s = "get_cmd_init buf" and n = n and status = status and w = w,
     OF default_case_cursor_at_end]
  by (simp add: get_cmd_init_def)

lemma get_cmd_loop_bounds:
  assumes "get_cmd_loop status w (get_cmd_init buf) = Some (r, s, w')"
  shows "cmd_idx s \<le> cmd_len s \<and> cmd_len s \<le> DEFAULT_CMD_MAXLEN"
proof -
  from get_cmd_iterate_loop [OF assms]
  obtain n where "get_cmd_iterate n status w (get_cmd_init buf) = (Exit r, s, w')" by auto
  then show ?thesis by (rule get_cmd_iterate_bounds)
qed

lemma get_cmd_loop_cursor_at_end:
  assumes "get_cmd_loop status w (get_cmd_init buf) = Some (r, s, w')"
  shows "cmd_idx s = cmd_len s"
proof -
  from get_cmd_iterate_loop [OF assms]
  obtain n where "get_cmd_iterate n status w (get_cmd_init buf) = (Exit r, s, w')" by auto
  then show ?thesis by (rule get_cmd_iterate_cursor_at_end)
qed

lemma get_cmd_body_full:
  assumes "DEFAULT_CMD_MAXLEN \<le> cmd_len s" and "shd (stdin w) = Read_byte c"
    and "c \<notin> {3, 4, 13}"
  shows "get_cmd_body status w s = (Next, s, w\<lparr>stdin := stl (stdin w)\<rparr>)"
  using assms by (simp add: get_cmd_body_other default_case_full)

lemma get_cmd_body_append:
  assumes "cmd_idx s = cmd_len s" and "cmd_len s < DEFAULT_CMD_MAXLEN"
    and "shd (stdin w) = Read_byte c" and "c \<notin> {3, 4, 13}"
  shows "get_cmd_body status w s =
         (Next, \<lparr>p_cmd = (p_cmd s)[cmd_len s := c], cmd_len = cmd_len s + 1,
                 cmd_idx = cmd_len s + 1\<rparr>,
          w\<lparr>stdin := stl (stdin w), stdout := stdout w @ [c]\<rparr>)"
  using assms by (simp add: get_cmd_body_other default_case_def Let_def printf_def)

section \<open>The bound on the line\<close>

text \<open>
  Claim C4.  After any number of passes through the loop of \<open>get_cmd\<close>, on any input, the
  cursor is at most the length and the length is at most \<open>DEFAULT_CMD_MAXLEN\<close> (both are
  unsigned, so they are at least 0); the same holds when \<open>get_cmd\<close> returns.  With the
  length at the maximum, a byte other than 3, 4 and 13 changes neither the buffer nor the
  counters nor the output, and the loop goes on to the next byte.
\<close>

theorem get_cmd_length_bounded:
  "(get_cmd_iterate n status w (get_cmd_init buf) = (ctl, s, w') \<longrightarrow>
      cmd_idx s \<le> cmd_len s \<and> cmd_len s \<le> DEFAULT_CMD_MAXLEN)
   \<and> (get_cmd_loop status w (get_cmd_init buf) = Some (r, sr, wr) \<longrightarrow>
      cmd_idx sr \<le> cmd_len sr \<and> cmd_len sr \<le> DEFAULT_CMD_MAXLEN)
   \<and> (cmd_len s_full = DEFAULT_CMD_MAXLEN \<and> shd (stdin w_full) = Read_byte c \<and> c \<notin> {3, 4, 13} \<longrightarrow>
      get_cmd_body status w_full s_full = (Next, s_full, w_full\<lparr>stdin := stl (stdin w_full)\<rparr>))"
proof (intro conjI impI)
  assume "get_cmd_iterate n status w (get_cmd_init buf) = (ctl, s, w')"
  then have "cmd_idx s \<le> cmd_len s \<and> cmd_len s \<le> DEFAULT_CMD_MAXLEN"
    by (rule get_cmd_iterate_bounds)
  then show "cmd_idx s \<le> cmd_len s" and "cmd_len s \<le> DEFAULT_CMD_MAXLEN" by simp_all
next
  assume "get_cmd_loop status w (get_cmd_init buf) = Some (r, sr, wr)"
  then have "cmd_idx sr \<le> cmd_len sr \<and> cmd_len sr \<le> DEFAULT_CMD_MAXLEN"
    by (rule get_cmd_loop_bounds)
  then show "cmd_idx sr \<le> cmd_len sr" and "cmd_len sr \<le> DEFAULT_CMD_MAXLEN" by simp_all
next
  assume "cmd_len s_full = DEFAULT_CMD_MAXLEN \<and> shd (stdin w_full) = Read_byte c \<and> c \<notin> {3, 4, 13}"
  then show "get_cmd_body status w_full s_full = (Next, s_full, w_full\<lparr>stdin := stl (stdin w_full)\<rparr>)"
    by (simp add: get_cmd_body_full)
qed

theorem get_cmd_length_bounded_witness:
  "get_cmd_iterate 1 (-1) (quiet_world\<lparr>stdin := Read_byte 0x61 ## Read_byte 13 ## sconst Read_eof\<rparr>)
     (get_cmd_init (replicate DEFAULT_CMD_MAXLEN 0)) =
   (Next, \<lparr>p_cmd = (replicate DEFAULT_CMD_MAXLEN 0)[0 := 0x61], cmd_len = 1, cmd_idx = 1\<rparr>,
    quiet_world\<lparr>stdin := Read_byte 13 ## sconst Read_eof, stdout := [0x61]\<rparr>)
   \<and> (1 :: nat) \<le> DEFAULT_CMD_MAXLEN
   \<and> get_cmd_loop (-1) (quiet_world\<lparr>stdin := Read_byte 0x61 ## Read_byte 13 ## sconst Read_eof\<rparr>)
     (get_cmd_init (replicate DEFAULT_CMD_MAXLEN 0)) =
   Some (0, \<lparr>p_cmd = (replicate DEFAULT_CMD_MAXLEN 0)[0 := 0x61], cmd_len = 1, cmd_idx = 1\<rparr>,
         quiet_world\<lparr>stdin := sconst Read_eof, stdout := [0x61]\<rparr>)
   \<and> cmd_len \<lparr>p_cmd = replicate DEFAULT_CMD_MAXLEN 0x61, cmd_len = DEFAULT_CMD_MAXLEN,
               cmd_idx = DEFAULT_CMD_MAXLEN\<rparr> = DEFAULT_CMD_MAXLEN
   \<and> shd (stdin (quiet_world\<lparr>stdin := Read_byte 0x62 ## sconst Read_eof\<rparr>)) = Read_byte 0x62
   \<and> (0x62 :: cchar) \<notin> {3, 4, 13}
   \<and> get_cmd_body (-1) (quiet_world\<lparr>stdin := Read_byte 0x62 ## sconst Read_eof\<rparr>)
        \<lparr>p_cmd = replicate DEFAULT_CMD_MAXLEN 0x61, cmd_len = DEFAULT_CMD_MAXLEN,
          cmd_idx = DEFAULT_CMD_MAXLEN\<rparr> =
      (Next, \<lparr>p_cmd = replicate DEFAULT_CMD_MAXLEN 0x61, cmd_len = DEFAULT_CMD_MAXLEN,
               cmd_idx = DEFAULT_CMD_MAXLEN\<rparr>,
       quiet_world\<lparr>stdin := sconst Read_eof\<rparr>)"
proof -
  let ?w = "quiet_world\<lparr>stdin := Read_byte 0x61 ## Read_byte 13 ## sconst Read_eof\<rparr>"
  let ?z = "replicate DEFAULT_CMD_MAXLEN (0 :: cchar)"
  let ?sa = "\<lparr>p_cmd = ?z[0 := 0x61], cmd_len = 1, cmd_idx = 1\<rparr>"
  let ?sfull = "\<lparr>p_cmd = replicate DEFAULT_CMD_MAXLEN (0x61 :: cchar), cmd_len = DEFAULT_CMD_MAXLEN,
              cmd_idx = DEFAULT_CMD_MAXLEN\<rparr>"
  have b1: "get_cmd_body (-1) ?w (get_cmd_init ?z) =
            (Next, ?sa, quiet_world\<lparr>stdin := Read_byte 13 ## sconst Read_eof, stdout := [0x61]\<rparr>)"
    by (simp add: get_cmd_body_append get_cmd_init_def DEFAULT_CMD_MAXLEN_def quiet_world_def)
  then have it: "get_cmd_iterate 1 (-1) ?w (get_cmd_init ?z) =
            (Next, ?sa, quiet_world\<lparr>stdin := Read_byte 13 ## sconst Read_eof, stdout := [0x61]\<rparr>)"
    by simp
  have b2: "get_cmd_body (-1)
              (quiet_world\<lparr>stdin := Read_byte 13 ## sconst Read_eof, stdout := [0x61]\<rparr>) ?sa =
            (Exit 0, ?sa, quiet_world\<lparr>stdin := sconst Read_eof, stdout := [0x61]\<rparr>)"
    by (simp add: get_cmd_body_enter)
  have lp: "get_cmd_loop (-1) ?w (get_cmd_init ?z) =
            Some (0, ?sa, quiet_world\<lparr>stdin := sconst Read_eof, stdout := [0x61]\<rparr>)"
    by (simp only: get_cmd_loop_next [OF b1] get_cmd_loop_exit [OF b2])
  show ?thesis
    using it lp
      get_cmd_length_bounded [where n = 1 and status = "-1" and w = ?w and buf = ?z
        and ctl = Next and s = ?sa
        and w' = "quiet_world\<lparr>stdin := Read_byte 13 ## sconst Read_eof, stdout := [0x61]\<rparr>"
        and r = 0 and sr = ?sa
        and wr = "quiet_world\<lparr>stdin := sconst Read_eof, stdout := [0x61]\<rparr>"
        and s_full = ?sfull and w_full = "quiet_world\<lparr>stdin := Read_byte 0x62 ## sconst Read_eof\<rparr>"
        and c = "0x62"]
    by simp
qed

section \<open>The cursor stays at the end of the line\<close>

text \<open>
  Claim C9.  In every state that the loop of \<open>get_cmd\<close> reaches from the initial values of
  its variables, on any input and after any number of passes, \<open>cmd_idx\<close> equals \<open>cmd_len\<close>.
  So the shift loop, which runs from \<open>cmd_len\<close> down to \<open>cmd_idx\<close>, leaves the buffer as it
  is, and an insertion writes the byte at index \<open>cmd_len\<close> and changes no other position.
  The state in which \<open>get_cmd\<close> returns has the cursor at the end as well.
\<close>

theorem get_cmd_cursor_always_at_end:
  "(get_cmd_iterate n status w (get_cmd_init buf) = (ctl, s, w') \<longrightarrow>
      cmd_idx s = cmd_len s
      \<and> shift_chars (p_cmd s) (cmd_len s) (cmd_idx s) = p_cmd s
      \<and> (cmd_len s < DEFAULT_CMD_MAXLEN \<longrightarrow>
           fst (default_case c s w') =
           \<lparr>p_cmd = (p_cmd s)[cmd_len s := c], cmd_len = cmd_len s + 1,
             cmd_idx = cmd_len s + 1\<rparr>))
   \<and> (get_cmd_loop status w (get_cmd_init buf) = Some (r, sr, wr) \<longrightarrow> cmd_idx sr = cmd_len sr)"
proof (intro conjI impI)
  assume "get_cmd_iterate n status w (get_cmd_init buf) = (ctl, s, w')"
  then show eq: "cmd_idx s = cmd_len s"
    by (rule get_cmd_iterate_cursor_at_end)
  then show "shift_chars (p_cmd s) (cmd_len s) (cmd_idx s) = p_cmd s"
    by simp
  assume "cmd_len s < DEFAULT_CMD_MAXLEN"
  with eq show "fst (default_case c s w') =
      \<lparr>p_cmd = (p_cmd s)[cmd_len s := c], cmd_len = cmd_len s + 1, cmd_idx = cmd_len s + 1\<rparr>"
    by (simp add: default_case_def Let_def)
next
  assume "get_cmd_loop status w (get_cmd_init buf) = Some (r, sr, wr)"
  then show "cmd_idx sr = cmd_len sr"
    by (rule get_cmd_loop_cursor_at_end)
qed

theorem get_cmd_cursor_always_at_end_witness:
  "get_cmd_iterate 1 (-1) (quiet_world\<lparr>stdin := Read_byte 0x61 ## Read_byte 13 ## sconst Read_eof\<rparr>)
     (get_cmd_init (replicate DEFAULT_CMD_MAXLEN 0)) =
   (Next, \<lparr>p_cmd = (replicate DEFAULT_CMD_MAXLEN 0)[0 := 0x61], cmd_len = 1, cmd_idx = 1\<rparr>,
    quiet_world\<lparr>stdin := Read_byte 13 ## sconst Read_eof, stdout := [0x61]\<rparr>)
   \<and> (1 :: nat) < DEFAULT_CMD_MAXLEN
   \<and> shift_chars ((replicate DEFAULT_CMD_MAXLEN 0)[0 := 0x61]) 1 1 =
       (replicate DEFAULT_CMD_MAXLEN 0)[0 := 0x61]
   \<and> fst (default_case 0x62
             \<lparr>p_cmd = (replicate DEFAULT_CMD_MAXLEN 0)[0 := 0x61], cmd_len = 1, cmd_idx = 1\<rparr>
             (quiet_world\<lparr>stdin := Read_byte 13 ## sconst Read_eof, stdout := [0x61]\<rparr>)) =
       \<lparr>p_cmd = (replicate DEFAULT_CMD_MAXLEN 0)[0 := 0x61, 1 := 0x62], cmd_len = 2, cmd_idx = 2\<rparr>
   \<and> get_cmd_loop (-1) (quiet_world\<lparr>stdin := Read_byte 0x61 ## Read_byte 13 ## sconst Read_eof\<rparr>)
     (get_cmd_init (replicate DEFAULT_CMD_MAXLEN 0)) =
   Some (0, \<lparr>p_cmd = (replicate DEFAULT_CMD_MAXLEN 0)[0 := 0x61], cmd_len = 1, cmd_idx = 1\<rparr>,
         quiet_world\<lparr>stdin := sconst Read_eof, stdout := [0x61]\<rparr>)"
proof -
  let ?w = "quiet_world\<lparr>stdin := Read_byte 0x61 ## Read_byte 13 ## sconst Read_eof\<rparr>"
  let ?wa = "quiet_world\<lparr>stdin := Read_byte 13 ## sconst Read_eof, stdout := [0x61]\<rparr>"
  let ?z = "replicate DEFAULT_CMD_MAXLEN (0 :: cchar)"
  let ?sa = "\<lparr>p_cmd = ?z[0 := 0x61], cmd_len = 1, cmd_idx = 1\<rparr>"
  have b1: "get_cmd_body (-1) ?w (get_cmd_init ?z) = (Next, ?sa, ?wa)"
    by (simp add: get_cmd_body_append get_cmd_init_def DEFAULT_CMD_MAXLEN_def quiet_world_def)
  then have it: "get_cmd_iterate 1 (-1) ?w (get_cmd_init ?z) = (Next, ?sa, ?wa)"
    by simp
  have b2: "get_cmd_body (-1) ?wa ?sa =
            (Exit 0, ?sa, quiet_world\<lparr>stdin := sconst Read_eof, stdout := [0x61]\<rparr>)"
    by (simp add: get_cmd_body_enter)
  have lp: "get_cmd_loop (-1) ?w (get_cmd_init ?z) =
            Some (0, ?sa, quiet_world\<lparr>stdin := sconst Read_eof, stdout := [0x61]\<rparr>)"
    by (simp only: get_cmd_loop_next [OF b1] get_cmd_loop_exit [OF b2])
  have lt: "(1 :: nat) < DEFAULT_CMD_MAXLEN"
    by (simp add: DEFAULT_CMD_MAXLEN_def)
  show ?thesis
    using it lp lt
      get_cmd_cursor_always_at_end [where n = 1 and status = "-1" and w = ?w and buf = ?z
        and ctl = Next and s = ?sa and w' = ?wa and c = "0x62" and r = 0 and sr = ?sa
        and wr = "quiet_world\<lparr>stdin := sconst Read_eof, stdout := [0x61]\<rparr>"]
    by (simp add: numeral_2_eq_2)
qed

section \<open>Insertion at the cursor\<close>

lemma nth_take_shift_chars_insert:
  assumes "idx \<le> len" and "len < length p" and "i \<le> len"
  shows "take (len + 1) ((shift_chars p len idx)[idx := c]) ! i =
         (if i = idx then c else if idx < i then p ! (i - 1) else p ! i)"
proof -
  have "take (len + 1) ((shift_chars p len idx)[idx := c]) ! i =
        (shift_chars p len idx)[idx := c] ! i"
    using assms(3) by simp
  also have "\<dots> = (if idx = i then c else shift_chars p len idx ! i)"
    using assms by (simp only: nth_list_update length_shift_chars)
  also have "shift_chars p len idx ! i = (if idx < i \<and> i \<le> len then p ! (i - 1) else p ! i)"
    using assms by (intro nth_shift_chars) simp_all
  finally show ?thesis using assms(3) by auto
qed

lemma take_shift_chars_insert:
  assumes "idx \<le> len" and "len < length p"
  shows "take (len + 1) ((shift_chars p len idx)[idx := c]) =
         take idx p @ c # drop idx (take len p)"
proof (rule nth_equalityI)
  show "length (take (len + 1) ((shift_chars p len idx)[idx := c])) =
        length (take idx p @ c # drop idx (take len p))"
    using assms by simp
next
  fix i
  assume "i < length (take (len + 1) ((shift_chars p len idx)[idx := c]))"
  with assms have i: "i \<le> len" by simp
  have rhs: "(take idx p @ c # drop idx (take len p)) ! i =
             (if i = idx then c else if idx < i then p ! (i - 1) else p ! i)"
  proof (cases "idx < i")
    case True
    then obtain k where "i = Suc (idx + k)"
      using less_imp_Suc_add by blast
    then have k: "i = idx + Suc k" by simp
    with assms i have "(take idx p @ c # drop idx (take len p)) ! i = p ! (idx + k)"
      by (simp add: nth_append)
    with k show ?thesis by simp
  next
    case False
    then have "i < idx \<or> i = idx" by auto
    then show ?thesis
    proof
      assume "i < idx"
      with assms show ?thesis by (simp add: nth_append)
    next
      assume "i = idx"
      with assms show ?thesis by (simp add: nth_append)
    qed
  qed
  show "take (len + 1) ((shift_chars p len idx)[idx := c]) ! i =
        (take idx p @ c # drop idx (take len p)) ! i"
    by (simp only: nth_take_shift_chars_insert [OF assms i] rhs)
qed

text \<open>
  Claim C7.  In a state with the cursor at or below the length and the length below
  \<open>DEFAULT_CMD_MAXLEN\<close>, in a buffer of \<open>DEFAULT_CMD_MAXLEN\<close> bytes, a byte \<open>c\<close> other than 3,
  4 and 13 takes the \<open>default:\<close> branch, after which \<open>c\<close> is at the old cursor position,
  every byte that was at a position from the cursor up to the length is one position to
  the right, the bytes before the cursor are where they were, and the cursor and the
  length are one more than before.
\<close>

theorem get_cmd_insert_at_cursor:
  assumes "cmd_idx s \<le> cmd_len s" and "cmd_len s < DEFAULT_CMD_MAXLEN"
    and "length (p_cmd s) = DEFAULT_CMD_MAXLEN"
    and "shd (stdin w) = Read_byte c" and "c \<notin> {3, 4, 13}"
  shows "get_cmd_body status w s = (Next, default_case c s (w\<lparr>stdin := stl (stdin w)\<rparr>))
       \<and> p_cmd (fst (default_case c s w')) ! cmd_idx s = c
       \<and> (\<forall>j. cmd_idx s \<le> j \<and> j < cmd_len s \<longrightarrow>
              p_cmd (fst (default_case c s w')) ! (j + 1) = p_cmd s ! j)
       \<and> (\<forall>j. j < cmd_idx s \<longrightarrow> p_cmd (fst (default_case c s w')) ! j = p_cmd s ! j)
       \<and> take (cmd_len s + 1) (p_cmd (fst (default_case c s w'))) =
           take (cmd_idx s) (p_cmd s) @ c # drop (cmd_idx s) (take (cmd_len s) (p_cmd s))
       \<and> cmd_idx (fst (default_case c s w')) = cmd_idx s + 1
       \<and> cmd_len (fst (default_case c s w')) = cmd_len s + 1"
proof -
  define q where "q = (shift_chars (p_cmd s) (cmd_len s) (cmd_idx s))[cmd_idx s := c]"
  from assms(2,3) have len: "cmd_len s < length (p_cmd s)" by simp
  have dc: "fst (default_case c s w') =
            \<lparr>p_cmd = q, cmd_len = cmd_len s + 1, cmd_idx = cmd_idx s + 1\<rparr>"
    using assms(2) by (simp add: default_case_def Let_def q_def)
  have nth: "q ! i = (if i = cmd_idx s then c else if cmd_idx s < i then p_cmd s ! (i - 1)
                      else p_cmd s ! i)" if "i \<le> cmd_len s" for i
    using nth_take_shift_chars_insert [OF assms(1) len that, of c] that
    unfolding q_def by simp
  have body: "get_cmd_body status w s = (Next, default_case c s (w\<lparr>stdin := stl (stdin w)\<rparr>))"
    using assms(4,5) by (simp add: get_cmd_body_other)
  have at: "q ! cmd_idx s = c"
    using nth [OF assms(1)] by simp
  have after: "\<forall>j. cmd_idx s \<le> j \<and> j < cmd_len s \<longrightarrow> q ! (j + 1) = p_cmd s ! j"
  proof (intro allI impI)
    fix j
    assume j: "cmd_idx s \<le> j \<and> j < cmd_len s"
    then have "j + 1 \<le> cmd_len s" by simp
    from nth [OF this] j show "q ! (j + 1) = p_cmd s ! j" by simp
  qed
  have before: "\<forall>j. j < cmd_idx s \<longrightarrow> q ! j = p_cmd s ! j"
  proof (intro allI impI)
    fix j
    assume j: "j < cmd_idx s"
    with assms(1) have "j \<le> cmd_len s" by simp
    from nth [OF this] j show "q ! j = p_cmd s ! j" by simp
  qed
  have line: "take (cmd_len s + 1) q =
              take (cmd_idx s) (p_cmd s) @ c # drop (cmd_idx s) (take (cmd_len s) (p_cmd s))"
    unfolding q_def using assms(1) len by (rule take_shift_chars_insert)
  have "p_cmd (fst (default_case c s w')) = q"
    and "cmd_idx (fst (default_case c s w')) = cmd_idx s + 1"
    and "cmd_len (fst (default_case c s w')) = cmd_len s + 1"
    by (simp_all only: dc edit_state.simps)
  with body at after before line show ?thesis
    by (intro conjI) (simp_all only:)
qed

theorem get_cmd_insert_at_cursor_witness:
  "cmd_idx \<lparr>p_cmd = [0x61, 0x63] @ replicate 1022 0, cmd_len = 2, cmd_idx = 1\<rparr>
     \<le> cmd_len \<lparr>p_cmd = [0x61, 0x63] @ replicate 1022 0, cmd_len = 2, cmd_idx = 1\<rparr>
   \<and> cmd_len \<lparr>p_cmd = [0x61, 0x63] @ replicate 1022 0, cmd_len = 2, cmd_idx = 1\<rparr>
     < DEFAULT_CMD_MAXLEN
   \<and> length (p_cmd \<lparr>p_cmd = [0x61, 0x63] @ replicate 1022 0, cmd_len = 2, cmd_idx = 1\<rparr>)
     = DEFAULT_CMD_MAXLEN
   \<and> shd (stdin (quiet_world\<lparr>stdin := Read_byte 0x62 ## sconst Read_eof\<rparr>)) = Read_byte 0x62
   \<and> (0x62 :: cchar) \<notin> {3, 4, 13}
   \<and> p_cmd (fst (default_case 0x62
         \<lparr>p_cmd = [0x61, 0x63] @ replicate 1022 0, cmd_len = 2, cmd_idx = 1\<rparr> quiet_world)) ! 1
       = 0x62
   \<and> p_cmd (fst (default_case 0x62
         \<lparr>p_cmd = [0x61, 0x63] @ replicate 1022 0, cmd_len = 2, cmd_idx = 1\<rparr> quiet_world)) ! 2
       = 0x63
   \<and> p_cmd (fst (default_case 0x62
         \<lparr>p_cmd = [0x61, 0x63] @ replicate 1022 0, cmd_len = 2, cmd_idx = 1\<rparr> quiet_world)) ! 0
       = 0x61
   \<and> take 3 (p_cmd (fst (default_case 0x62
         \<lparr>p_cmd = [0x61, 0x63] @ replicate 1022 0, cmd_len = 2, cmd_idx = 1\<rparr> quiet_world)))
       = [0x61, 0x62, 0x63]
   \<and> cmd_idx (fst (default_case 0x62
         \<lparr>p_cmd = [0x61, 0x63] @ replicate 1022 0, cmd_len = 2, cmd_idx = 1\<rparr> quiet_world)) = 2
   \<and> cmd_len (fst (default_case 0x62
         \<lparr>p_cmd = [0x61, 0x63] @ replicate 1022 0, cmd_len = 2, cmd_idx = 1\<rparr> quiet_world)) = 3"
proof -
  let ?s = "\<lparr>p_cmd = [0x61, 0x63] @ replicate 1022 (0 :: cchar), cmd_len = 2, cmd_idx = 1\<rparr>"
  let ?w = "quiet_world\<lparr>stdin := Read_byte 0x62 ## sconst Read_eof\<rparr>"
  have h: "cmd_idx ?s \<le> cmd_len ?s" "cmd_len ?s < DEFAULT_CMD_MAXLEN"
    "length (p_cmd ?s) = DEFAULT_CMD_MAXLEN" "shd (stdin ?w) = Read_byte 0x62"
    "(0x62 :: cchar) \<notin> {3, 4, 13}"
    by (simp_all add: DEFAULT_CMD_MAXLEN_def)
  note t = get_cmd_insert_at_cursor [OF h, where w' = quiet_world and status = "-1"]
  have "p_cmd (fst (default_case 0x62 ?s quiet_world)) ! 2 = 0x63"
    using t [THEN conjunct2, THEN conjunct2, THEN conjunct1, rule_format, of 1]
    by (simp add: numeral_2_eq_2)
  moreover have "p_cmd (fst (default_case 0x62 ?s quiet_world)) ! 0 = 0x61"
    using t [THEN conjunct2, THEN conjunct2, THEN conjunct2, THEN conjunct1, rule_format, of 0]
    by simp
  moreover have "p_cmd (fst (default_case 0x62 ?s quiet_world)) ! 1 = 0x62"
    using t [THEN conjunct2, THEN conjunct1] by simp
  moreover have "take 3 (p_cmd (fst (default_case 0x62 ?s quiet_world))) = [0x61, 0x62, 0x63]"
    using t [THEN conjunct2, THEN conjunct2, THEN conjunct2, THEN conjunct2, THEN conjunct1]
    by simp
  moreover have "cmd_idx (fst (default_case 0x62 ?s quiet_world)) = 2"
    and "cmd_len (fst (default_case 0x62 ?s quiet_world)) = 3"
    using t by simp_all
  ultimately show ?thesis
    using h by (simp only:) simp
qed

section \<open>Bytes that are not keys of the editor\<close>

lemma get_cmd_body_cmd_len_mono:
  "cmd_len s \<le> cmd_len (fst (snd (get_cmd_body status w s)))"
  by (cases "shd (stdin w)")
     (simp_all add: get_cmd_body_def default_case_def Let_def split: prod.splits)

text \<open>
  Claim C10.  The \<open>switch\<close> of \<open>get_cmd\<close> has cases for 3, 4 and 13 only.  Every other
  byte, among them \<open>KEY_BACKSPACE\<close> (127), \<open>KEY_ESCAPE\<close> (27) and NUL, takes the \<open>default:\<close>
  branch: with room in the buffer it is echoed and stored at the cursor, which is the end
  of the line, and the loop goes on.  So a typed sequence of such bytes ends up in the
  buffer and on the output as it is, cut at \<open>DEFAULT_CMD_MAXLEN\<close>; and no pass through the
  loop, whatever it reads, makes the line shorter.
\<close>

theorem get_cmd_plain_bytes:
  "KEY_BACKSPACE \<notin> {3, 4, 13} \<and> KEY_ESCAPE \<notin> {3, 4, 13} \<and> (0 :: cchar) \<notin> {3, 4, 13}
   \<and> (c \<notin> {3, 4, 13} \<and> shd (stdin w) = Read_byte c \<and> cmd_idx s = cmd_len s
        \<and> cmd_len s < DEFAULT_CMD_MAXLEN \<longrightarrow>
      get_cmd_body status w s =
        (Next, \<lparr>p_cmd = (p_cmd s)[cmd_len s := c], cmd_len = cmd_len s + 1,
                cmd_idx = cmd_len s + 1\<rparr>,
         w\<lparr>stdin := stl (stdin w), stdout := stdout w @ [c]\<rparr>))
   \<and> (set xs \<inter> {3, 4, 13} = {} \<and> length buf = DEFAULT_CMD_MAXLEN \<longrightarrow>
      get_cmd_loop status (wl\<lparr>stdin := map Read_byte xs @- rest\<rparr>) (get_cmd_init buf) =
      get_cmd_loop status
        (wl\<lparr>stdin := rest, stdout := stdout wl @ take DEFAULT_CMD_MAXLEN xs\<rparr>)
        \<lparr>p_cmd = take DEFAULT_CMD_MAXLEN xs @ drop (length (take DEFAULT_CMD_MAXLEN xs)) buf,
          cmd_len = length (take DEFAULT_CMD_MAXLEN xs),
          cmd_idx = length (take DEFAULT_CMD_MAXLEN xs)\<rparr>)
   \<and> cmd_len sa \<le> cmd_len (fst (snd (get_cmd_body status wa sa)))"
proof (intro conjI impI)
  show "KEY_BACKSPACE \<notin> {3, 4, 13}" "KEY_ESCAPE \<notin> {3, 4, 13}" "(0 :: cchar) \<notin> {3, 4, 13}"
    by (simp_all add: KEY_BACKSPACE_def KEY_ESCAPE_def)
next
  assume "c \<notin> {3, 4, 13} \<and> shd (stdin w) = Read_byte c \<and> cmd_idx s = cmd_len s
          \<and> cmd_len s < DEFAULT_CMD_MAXLEN"
  then show "get_cmd_body status w s =
        (Next, \<lparr>p_cmd = (p_cmd s)[cmd_len s := c], cmd_len = cmd_len s + 1,
                cmd_idx = cmd_len s + 1\<rparr>,
         w\<lparr>stdin := stl (stdin w), stdout := stdout w @ [c]\<rparr>)"
    by (intro get_cmd_body_append) simp_all
next
  assume "set xs \<inter> {3, 4, 13} = {} \<and> length buf = DEFAULT_CMD_MAXLEN"
  then show "get_cmd_loop status (wl\<lparr>stdin := map Read_byte xs @- rest\<rparr>) (get_cmd_init buf) =
      get_cmd_loop status
        (wl\<lparr>stdin := rest, stdout := stdout wl @ take DEFAULT_CMD_MAXLEN xs\<rparr>)
        \<lparr>p_cmd = take DEFAULT_CMD_MAXLEN xs @ drop (length (take DEFAULT_CMD_MAXLEN xs)) buf,
          cmd_len = length (take DEFAULT_CMD_MAXLEN xs),
          cmd_idx = length (take DEFAULT_CMD_MAXLEN xs)\<rparr>"
    by (intro get_cmd_loop_line) simp_all
next
  show "cmd_len sa \<le> cmd_len (fst (snd (get_cmd_body status wa sa)))"
    by (rule get_cmd_body_cmd_len_mono)
qed

theorem get_cmd_plain_bytes_witness:
  "KEY_BACKSPACE \<notin> {3, 4, 13}
   \<and> shd (stdin (quiet_world\<lparr>stdin := Read_byte KEY_BACKSPACE ## sconst Read_eof\<rparr>)) =
       Read_byte KEY_BACKSPACE
   \<and> cmd_idx \<lparr>p_cmd = [0x61] @ replicate 1023 0, cmd_len = 1, cmd_idx = 1\<rparr> =
       cmd_len \<lparr>p_cmd = [0x61] @ replicate 1023 0, cmd_len = 1, cmd_idx = 1\<rparr>
   \<and> cmd_len \<lparr>p_cmd = [0x61] @ replicate 1023 0, cmd_len = 1, cmd_idx = 1\<rparr> < DEFAULT_CMD_MAXLEN
   \<and> get_cmd_body (-1) (quiet_world\<lparr>stdin := Read_byte KEY_BACKSPACE ## sconst Read_eof\<rparr>)
        \<lparr>p_cmd = [0x61] @ replicate 1023 0, cmd_len = 1, cmd_idx = 1\<rparr> =
      (Next, \<lparr>p_cmd = ([0x61] @ replicate 1023 0)[1 := KEY_BACKSPACE], cmd_len = 2, cmd_idx = 2\<rparr>,
       quiet_world\<lparr>stdin := sconst Read_eof, stdout := [KEY_BACKSPACE]\<rparr>)
   \<and> set [0x61, KEY_BACKSPACE, KEY_ESCAPE, 0x5B, 0x41, 0] \<inter> {3, 4, 13} = {}
   \<and> length (replicate DEFAULT_CMD_MAXLEN (0 :: cchar)) = DEFAULT_CMD_MAXLEN
   \<and> get_cmd_loop (-1)
        (quiet_world\<lparr>stdin := map Read_byte [0x61, KEY_BACKSPACE, KEY_ESCAPE, 0x5B, 0x41, 0]
                                @- Read_byte 13 ## sconst Read_eof\<rparr>)
        (get_cmd_init (replicate DEFAULT_CMD_MAXLEN 0)) =
      Some (0, \<lparr>p_cmd = [0x61, KEY_BACKSPACE, KEY_ESCAPE, 0x5B, 0x41, 0] @ replicate 1018 0,
                 cmd_len = 6, cmd_idx = 6\<rparr>,
            quiet_world\<lparr>stdin := sconst Read_eof,
                          stdout := [0x61, KEY_BACKSPACE, KEY_ESCAPE, 0x5B, 0x41, 0]\<rparr>)"
proof -
  let ?xs = "[0x61, KEY_BACKSPACE, KEY_ESCAPE, 0x5B, 0x41, 0 :: cchar]"
  let ?s = "\<lparr>p_cmd = [0x61] @ replicate 1023 (0 :: cchar), cmd_len = 1, cmd_idx = 1\<rparr>"
  let ?w = "quiet_world\<lparr>stdin := Read_byte KEY_BACKSPACE ## sconst Read_eof\<rparr>"
  note t = get_cmd_plain_bytes [where c = KEY_BACKSPACE and w = ?w and s = ?s and status = "-1"
      and xs = ?xs and buf = "replicate DEFAULT_CMD_MAXLEN 0" and wl = quiet_world
      and rest = "Read_byte 13 ## sconst Read_eof"]
  have k: "KEY_BACKSPACE \<notin> {3, 4, 13}"
    by (rule t [THEN conjunct1])
  have xs: "set ?xs \<inter> {3, 4, 13} = {}"
    by (simp add: KEY_BACKSPACE_def KEY_ESCAPE_def)
  have one: "get_cmd_body (-1) ?w ?s =
      (Next, \<lparr>p_cmd = ([0x61] @ replicate 1023 0)[1 := KEY_BACKSPACE], cmd_len = 2, cmd_idx = 2\<rparr>,
       quiet_world\<lparr>stdin := sconst Read_eof, stdout := [KEY_BACKSPACE]\<rparr>)"
    using t [THEN conjunct2, THEN conjunct2, THEN conjunct2, THEN conjunct1] k
    by (simp add: DEFAULT_CMD_MAXLEN_def quiet_world_def)
  have "get_cmd_loop (-1) (quiet_world\<lparr>stdin := map Read_byte ?xs @- Read_byte 13 ## sconst Read_eof\<rparr>)
          (get_cmd_init (replicate DEFAULT_CMD_MAXLEN 0)) =
        get_cmd_loop (-1)
          (quiet_world\<lparr>stdin := Read_byte 13 ## sconst Read_eof,
             stdout := stdout quiet_world @ take DEFAULT_CMD_MAXLEN ?xs\<rparr>)
          \<lparr>p_cmd = take DEFAULT_CMD_MAXLEN ?xs
                    @ drop (length (take DEFAULT_CMD_MAXLEN ?xs)) (replicate DEFAULT_CMD_MAXLEN 0),
            cmd_len = length (take DEFAULT_CMD_MAXLEN ?xs),
            cmd_idx = length (take DEFAULT_CMD_MAXLEN ?xs)\<rparr>"
    using t [THEN conjunct2, THEN conjunct2, THEN conjunct2, THEN conjunct2, THEN conjunct1] xs
    by simp
  then have line: "get_cmd_loop (-1)
        (quiet_world\<lparr>stdin := map Read_byte ?xs @- Read_byte 13 ## sconst Read_eof\<rparr>)
        (get_cmd_init (replicate DEFAULT_CMD_MAXLEN 0)) =
      Some (0, \<lparr>p_cmd = ?xs @ replicate 1018 0, cmd_len = 6, cmd_idx = 6\<rparr>,
            quiet_world\<lparr>stdin := sconst Read_eof, stdout := ?xs\<rparr>)"
    by (simp add: get_cmd_loop_exit get_cmd_body_enter DEFAULT_CMD_MAXLEN_def quiet_world_def)
  show ?thesis
    using k xs one line by (simp add: DEFAULT_CMD_MAXLEN_def)
qed

section \<open>Restoring the terminal\<close>

lemma console_finalize_tty:
  "tty (console_finalize (Some con) w) = (if shd (tc_ok w) then old_console con else tty w)"
  by (simp add: console_finalize_def tcsetattr_def)

lemma console_finalize_io:
  "stdin (console_finalize p w) = stdin w" "stdout (console_finalize p w) = stdout w"
  by (cases p; simp add: console_finalize_def tcsetattr_def)+

lemma console_initialize_ok:
  assumes "fst (console_initialize h (Some con) w) = 0"
  shows "\<exists>con'. fst (snd (console_initialize h (Some con) w)) = Some con'
                \<and> old_console con' = tty w"
  using assms
  by (auto simp: console_initialize_def tcgetattr_def tcsetattr_def Let_def split: if_splits)

text \<open>
  Claim C6, as amended.  \<open>console_finalize\<close> returns nothing and always returns.  On a null
  pointer it does nothing.  On a context it calls \<open>tcsetattr\<close> with \<open>old_console\<close>, whatever
  that holds: the terminal has these attributes afterwards if the call is carried out, and
  is unchanged if not.  When the first of two calls in succession is carried out, the
  second leaves the attributes as the first set them; after a \<open>console_initialize\<close> that
  returned 0 these are the attributes the terminal had before it.  Standard input and
  output are not touched.
\<close>

theorem console_finalize_restores:
  "console_finalize None w = w
   \<and> tty (console_finalize (Some con) w) = (if shd (tc_ok w) then old_console con else tty w)
   \<and> stdin (console_finalize (Some con) w) = stdin w
   \<and> stdout (console_finalize (Some con) w) = stdout w
   \<and> (shd (tc_ok w) \<longrightarrow>
        tty (console_finalize (Some con) (console_finalize (Some con) w)) =
        tty (console_finalize (Some con) w))
   \<and> (fst (console_initialize h (Some c_init) w_init) = 0
        \<and> shd (tc_ok (snd (snd (console_initialize h (Some c_init) w_init)))) \<longrightarrow>
        tty (console_finalize (fst (snd (console_initialize h (Some c_init) w_init)))
               (snd (snd (console_initialize h (Some c_init) w_init)))) = tty w_init
        \<and> tty (console_finalize (fst (snd (console_initialize h (Some c_init) w_init)))
               (console_finalize (fst (snd (console_initialize h (Some c_init) w_init)))
                  (snd (snd (console_initialize h (Some c_init) w_init))))) = tty w_init)"
proof (intro conjI impI)
  show "console_finalize None w = w"
    by (simp add: console_finalize_def)
  show "tty (console_finalize (Some con) w) = (if shd (tc_ok w) then old_console con else tty w)"
    by (rule console_finalize_tty)
  show "stdin (console_finalize (Some con) w) = stdin w"
    and "stdout (console_finalize (Some con) w) = stdout w"
    by (rule console_finalize_io)+
next
  assume "shd (tc_ok w)"
  then show "tty (console_finalize (Some con) (console_finalize (Some con) w)) =
             tty (console_finalize (Some con) w)"
    by (simp add: console_finalize_tty)
next
  assume a: "fst (console_initialize h (Some c_init) w_init) = 0
             \<and> shd (tc_ok (snd (snd (console_initialize h (Some c_init) w_init))))"
  then obtain c1 where c1: "fst (snd (console_initialize h (Some c_init) w_init)) = Some c1"
      and old: "old_console c1 = tty w_init"
    using console_initialize_ok by blast
  from a c1 old
  show "tty (console_finalize (fst (snd (console_initialize h (Some c_init) w_init)))
               (snd (snd (console_initialize h (Some c_init) w_init)))) = tty w_init"
    by (simp add: console_finalize_tty)
  from a c1 old
  show "tty (console_finalize (fst (snd (console_initialize h (Some c_init) w_init)))
               (console_finalize (fst (snd (console_initialize h (Some c_init) w_init)))
                  (snd (snd (console_initialize h (Some c_init) w_init))))) = tty w_init"
    by (simp add: console_finalize_tty)
qed

theorem console_finalize_restores_witness:
  "shd (tc_ok (quiet_world\<lparr>tty := zero_termios\<rparr>))
   \<and> tty (console_finalize (Some (main_console\<lparr>old_console := zero_termios\<lparr>c_lflag := 0x8A3B\<rparr>\<rparr>))
          (console_finalize (Some (main_console\<lparr>old_console := zero_termios\<lparr>c_lflag := 0x8A3B\<rparr>\<rparr>))
             (quiet_world\<lparr>tty := zero_termios\<rparr>))) =
       zero_termios\<lparr>c_lflag := 0x8A3B\<rparr>
   \<and> fst (console_initialize linux_termios_h (Some main_console)
           (quiet_world\<lparr>tty := zero_termios\<lparr>c_lflag := 0x8A3B\<rparr>\<rparr>)) = 0
   \<and> shd (tc_ok (snd (snd (console_initialize linux_termios_h (Some main_console)
           (quiet_world\<lparr>tty := zero_termios\<lparr>c_lflag := 0x8A3B\<rparr>\<rparr>)))))
   \<and> tty (snd (snd (console_initialize linux_termios_h (Some main_console)
           (quiet_world\<lparr>tty := zero_termios\<lparr>c_lflag := 0x8A3B\<rparr>\<rparr>)))) \<noteq>
       zero_termios\<lparr>c_lflag := 0x8A3B\<rparr>
   \<and> tty (console_finalize
          (fst (snd (console_initialize linux_termios_h (Some main_console)
             (quiet_world\<lparr>tty := zero_termios\<lparr>c_lflag := 0x8A3B\<rparr>\<rparr>))))
          (snd (snd (console_initialize linux_termios_h (Some main_console)
             (quiet_world\<lparr>tty := zero_termios\<lparr>c_lflag := 0x8A3B\<rparr>\<rparr>))))) =
       zero_termios\<lparr>c_lflag := 0x8A3B\<rparr>"
proof -
  let ?t = "zero_termios\<lparr>c_lflag := 0x8A3B\<rparr>"
  let ?w = "quiet_world\<lparr>tty := ?t\<rparr>"
  have ok: "fst (console_initialize linux_termios_h (Some main_console) ?w) = 0"
    and nx: "shd (tc_ok (snd (snd (console_initialize linux_termios_h (Some main_console) ?w))))"
    by (simp_all add: console_initialize_def tcgetattr_def tcsetattr_def Let_def quiet_world_def)
  have raw: "c_cflag (tty (snd (snd (console_initialize linux_termios_h (Some main_console) ?w))))
             = 0x30"
    by (simp add: console_initialize_def tcgetattr_def tcsetattr_def Let_def quiet_world_def
        zero_termios_def linux_termios_h_def)
  have "c_cflag ?t = 0" by (simp add: zero_termios_def)
  with raw have ne: "tty (snd (snd (console_initialize linux_termios_h (Some main_console) ?w)))
                     \<noteq> ?t"
    by auto
  note t = console_finalize_restores [where w = "quiet_world\<lparr>tty := zero_termios\<rparr>"
      and con = "main_console\<lparr>old_console := ?t\<rparr>"
      and h = linux_termios_h and c_init = main_console and w_init = ?w]
  have up: "shd (tc_ok ?w)" "shd (tc_ok (quiet_world\<lparr>tty := zero_termios\<rparr>))"
    by (simp_all add: quiet_world_def)
  have two: "tty (console_finalize (Some (main_console\<lparr>old_console := ?t\<rparr>))
          (console_finalize (Some (main_console\<lparr>old_console := ?t\<rparr>))
             (quiet_world\<lparr>tty := zero_termios\<rparr>))) = ?t"
    using t up(2) by simp
  have restored: "tty (console_finalize
          (fst (snd (console_initialize linux_termios_h (Some main_console) ?w)))
          (snd (snd (console_initialize linux_termios_h (Some main_console) ?w)))) = ?t"
    using t ok nx by simp
  show ?thesis
    using up(2) two ok nx ne restored by (simp only:) simp
qed

text \<open>
  A context that \<open>console_initialize\<close> never filled, as \<open>main\<close> creates it, on a terminal
  that is not in the all-zero state and carries the call out: \<open>console_finalize\<close> changes
  the terminal's attributes.
\<close>

theorem console_finalize_restores_counterexample:
  "tty (console_finalize (Some main_console)
          (quiet_world\<lparr>tty := zero_termios\<lparr>c_lflag := 0x8A3B\<rparr>\<rparr>)) = zero_termios
   \<and> tty (quiet_world\<lparr>tty := zero_termios\<lparr>c_lflag := 0x8A3B\<rparr>\<rparr>) \<noteq> zero_termios"
proof -
  have "zero_termios\<lparr>c_lflag := 0x8A3B\<rparr> \<noteq> zero_termios"
  proof
    assume "zero_termios\<lparr>c_lflag := 0x8A3B\<rparr> = zero_termios"
    then have "c_lflag (zero_termios\<lparr>c_lflag := 0x8A3B\<rparr>) = c_lflag zero_termios"
      by (rule arg_cong)
    then show False by (simp add: zero_termios_def)
  qed
  then show ?thesis
    by (simp add: console_finalize_def tcsetattr_def main_console_def quiet_world_def)
qed

section \<open>The hint after a cancelled command\<close>

lemma c_string_typed:
  assumes "0 < k"
  shows "c_string (xs @ replicate k 0) = Some (takeWhile (\<lambda>b. b \<noteq> 0) xs)"
proof (cases "0 \<in> set xs")
  case True
  then have "takeWhile (\<lambda>b. b \<noteq> 0) (xs @ replicate k 0) = takeWhile (\<lambda>b. b \<noteq> 0) xs"
    by (intro takeWhile_append1 [where x = 0]) simp_all
  with True show ?thesis by (simp add: c_string_def)
next
  case False
  then have all: "\<forall>x\<in>set xs. x \<noteq> 0" by auto
  from assms obtain j where "k = Suc j" by (cases k) auto
  with all have "takeWhile (\<lambda>b. b \<noteq> 0) (xs @ replicate k 0) = xs"
    by (simp add: takeWhile_append)
  moreover from all have "takeWhile (\<lambda>b. b \<noteq> 0) xs = xs" by simp
  moreover from assms have "0 \<in> set (xs @ replicate k (0 :: cchar))" by simp
  ultimately show ?thesis by (simp only: c_string_def if_True)
qed

lemma length_takeWhile_0:
  "length (takeWhile P xs) = 0 \<longleftrightarrow> xs = [] \<or> \<not> P (hd xs)"
  by (cases xs) auto

lemma strlen_typed:
  assumes "0 < k"
  shows "strlen (xs @ replicate k 0) = Some (length (takeWhile (\<lambda>b. b \<noteq> 0) xs))"
  by (simp add: strlen_def c_string_typed [OF assms])

lemma console_run_dispatch_cancel:
  assumes "strlen buf = Some n"
  shows "console_run_dispatch (1, Some buf, w) =
         Continue (if n = 0 then printf hint (printf crlf w) else printf crlf w)"
  using assms by (simp add: console_run_dispatch_def Let_def)

lemma get_cmd_prompt_cancel:
  assumes "set xs \<inter> {3, 4, 13} = {}" and "length xs < DEFAULT_CMD_MAXLEN"
  shows "get_cmd (Some con) (Some (replicate DEFAULT_CMD_MAXLEN 0))
           (printf (cstr ''$ '') (w\<lparr>stdin := map Read_byte xs @- Read_byte 3 ## rest\<rparr>)) =
         Some (1, Some (xs @ replicate (DEFAULT_CMD_MAXLEN - length xs) 0),
               w\<lparr>stdin := rest, stdout := stdout w @ cstr ''$ '' @ xs @ cstr ''^C''\<rparr>)"
proof -
  let ?z = "replicate DEFAULT_CMD_MAXLEN (0 :: cchar)"
  let ?w = "w\<lparr>stdin := map Read_byte xs @- Read_byte 3 ## rest\<rparr>"
  let ?wc = "w\<lparr>stdin := rest, stdout := stdout w @ cstr ''$ '' @ xs @ cstr ''^C''\<rparr>"
  have tk: "take DEFAULT_CMD_MAXLEN xs = xs"
    using assms(2) by simp
  have "printf (cstr ''$ '') ?w =
        (printf (cstr ''$ '') w)\<lparr>stdin := map Read_byte xs @- Read_byte 3 ## rest\<rparr>"
    by (intro world.equality) simp_all
  then have "get_cmd_loop (-1) (printf (cstr ''$ '') ?w) (get_cmd_init ?z) =
        Some (1, \<lparr>p_cmd = take DEFAULT_CMD_MAXLEN xs
                             @ drop (length (take DEFAULT_CMD_MAXLEN xs)) ?z,
                   cmd_len = length (take DEFAULT_CMD_MAXLEN xs),
                   cmd_idx = length (take DEFAULT_CMD_MAXLEN xs)\<rparr>,
              (printf (cstr ''$ '') w)\<lparr>stdin := rest,
                 stdout := stdout (printf (cstr ''$ '') w)
                           @ take DEFAULT_CMD_MAXLEN xs @ cstr ''^C''\<rparr>)"
    using assms(1) by (simp only: get_cmd_loop_line_ctrl_c length_replicate)
  moreover have "(printf (cstr ''$ '') w)\<lparr>stdin := rest,
                 stdout := stdout (printf (cstr ''$ '') w) @ xs @ cstr ''^C''\<rparr> = ?wc"
    by (intro world.equality) simp_all
  ultimately show ?thesis
    by (simp add: get_cmd_def tk)
qed

lemma console_run_dispatch_typed_cancel:
  assumes "length xs < DEFAULT_CMD_MAXLEN"
  shows "console_run_dispatch
           (1, Some (xs @ replicate (DEFAULT_CMD_MAXLEN - length xs) 0), v) =
         Continue (v\<lparr>stdout := stdout v @ crlf
                                  @ (if xs = [] \<or> hd xs = 0 then hint else [])\<rparr>)"
proof -
  let ?buf = "xs @ replicate (DEFAULT_CMD_MAXLEN - length xs) (0 :: cchar)"
  have "strlen ?buf = Some (length (takeWhile (\<lambda>b. b \<noteq> 0) xs))"
    using assms by (intro strlen_typed) simp
  then have "console_run_dispatch (1, Some ?buf, v) =
        Continue (if length (takeWhile (\<lambda>b. b \<noteq> 0) xs) = 0
                  then printf hint (printf crlf v) else printf crlf v)"
    by (rule console_run_dispatch_cancel)
  also have "(if length (takeWhile (\<lambda>b. b \<noteq> 0) xs) = 0
              then printf hint (printf crlf v) else printf crlf v) =
             v\<lparr>stdout := stdout v @ crlf @ (if xs = [] \<or> hd xs = 0 then hint else [])\<rparr>"
    by (intro world.equality) (simp_all add: length_takeWhile_0 del: length_0_conv)
  finally show ?thesis .
qed

lemma console_run_loop_cancel:
  assumes "set xs \<inter> {3, 4, 13} = {}" and "length xs < DEFAULT_CMD_MAXLEN"
  shows "console_run_loop (Some con) (w\<lparr>stdin := map Read_byte xs @- Read_byte 3 ## rest\<rparr>) =
         console_run_loop (Some con)
           (w\<lparr>stdin := rest,
              stdout := stdout w @ cstr ''$ '' @ xs @ cstr ''^C'' @ crlf
                        @ (if xs = [] \<or> hd xs = 0 then hint else [])\<rparr>)"
proof -
  let ?wc = "w\<lparr>stdin := rest, stdout := stdout w @ cstr ''$ '' @ xs @ cstr ''^C''\<rparr>"
  have "?wc\<lparr>stdout := stdout ?wc @ crlf @ (if xs = [] \<or> hd xs = 0 then hint else [])\<rparr> =
        w\<lparr>stdin := rest,
          stdout := stdout w @ cstr ''$ '' @ xs @ cstr ''^C'' @ crlf
                    @ (if xs = [] \<or> hd xs = 0 then hint else [])\<rparr>"
    by (intro world.equality) simp_all
  then show ?thesis
    using get_cmd_prompt_cancel [OF assms, where con = con and w = w and rest = rest]
      console_run_dispatch_typed_cancel [OF assms(2), where v = ?wc]
    by (subst console_run_loop.simps) simp
qed

lemma console_run_loop_ctrl_d:
  "console_run_loop (Some con) (w\<lparr>stdin := Read_byte 4 ## rest\<rparr>) =
   Some (Inr (w\<lparr>stdin := rest, stdout := stdout w @ cstr ''$ '' @ crlf\<rparr>))"
proof -
  let ?z = "replicate DEFAULT_CMD_MAXLEN (0 :: cchar)"
  let ?wp = "printf (cstr ''$ '') (w\<lparr>stdin := Read_byte 4 ## rest\<rparr>)"
  have "get_cmd_body (-1) ?wp (get_cmd_init ?z) =
        (Exit (-1), get_cmd_init ?z, ?wp\<lparr>stdin := stl (stdin ?wp)\<rparr>)"
    by (rule get_cmd_body_ctrl_d) simp
  then have "get_cmd (Some con) (Some ?z) ?wp =
             Some (-1, Some ?z, ?wp\<lparr>stdin := stl (stdin ?wp)\<rparr>)"
    by (simp add: get_cmd_def get_cmd_loop_exit get_cmd_init_def)
  moreover have "console_run_dispatch (-1, Some ?z, ?wp\<lparr>stdin := stl (stdin ?wp)\<rparr>) =
                 Break (printf crlf (?wp\<lparr>stdin := stl (stdin ?wp)\<rparr>))"
    by (simp add: console_run_dispatch_def Let_def)
  moreover have "printf crlf (?wp\<lparr>stdin := stl (stdin ?wp)\<rparr>) =
                 w\<lparr>stdin := rest, stdout := stdout w @ cstr ''$ '' @ crlf\<rparr>"
    by (intro world.equality) simp_all
  ultimately show ?thesis
    by (subst console_run_loop.simps) simp
qed

lemma console_run_loop_cancel_exit:
  assumes "set xs \<inter> {3, 4, 13} = {}" and "length xs < DEFAULT_CMD_MAXLEN"
  shows "console_run_loop (Some con)
           (w\<lparr>stdin := map Read_byte xs @- Read_byte 3 ## Read_byte 4 ## rest\<rparr>) =
         Some (Inr (w\<lparr>stdin := rest,
                      stdout := stdout w @ cstr ''$ '' @ xs @ cstr ''^C'' @ crlf
                                @ (if xs = [] \<or> hd xs = 0 then hint else [])
                                @ cstr ''$ '' @ crlf\<rparr>))"
proof -
  let ?out = "stdout w @ cstr ''$ '' @ xs @ cstr ''^C'' @ crlf
              @ (if xs = [] \<or> hd xs = 0 then hint else [])"
  have "console_run_loop (Some con)
           (w\<lparr>stdin := map Read_byte xs @- Read_byte 3 ## Read_byte 4 ## rest\<rparr>) =
        console_run_loop (Some con) (w\<lparr>stdin := Read_byte 4 ## rest, stdout := ?out\<rparr>)"
    using assms by (rule console_run_loop_cancel)
  also have "w\<lparr>stdin := Read_byte 4 ## rest, stdout := ?out\<rparr> =
             (w\<lparr>stdout := ?out\<rparr>)\<lparr>stdin := Read_byte 4 ## rest\<rparr>"
    by (intro world.equality) simp_all
  also have "console_run_loop (Some con) ((w\<lparr>stdout := ?out\<rparr>)\<lparr>stdin := Read_byte 4 ## rest\<rparr>) =
             Some (Inr ((w\<lparr>stdout := ?out\<rparr>)\<lparr>stdin := rest,
                          stdout := stdout (w\<lparr>stdout := ?out\<rparr>) @ cstr ''$ '' @ crlf\<rparr>))"
    by (rule console_run_loop_ctrl_d)
  also have "(w\<lparr>stdout := ?out\<rparr>)\<lparr>stdin := rest,
                 stdout := stdout (w\<lparr>stdout := ?out\<rparr>) @ cstr ''$ '' @ crlf\<rparr> =
             w\<lparr>stdin := rest, stdout := ?out @ cstr ''$ '' @ crlf\<rparr>"
    by (intro world.equality) simp_all
  finally show ?thesis by simp
qed

text \<open>
  Claim C8, as amended.  A line of fewer than \<open>DEFAULT_CMD_MAXLEN\<close> bytes other than 3, 4
  and 13, then Ctrl-C, typed at the prompt: \<open>get_cmd\<close> returns 1 with the line in the buffer,
  and \<open>console_run\<close> prints a line break, then the hint if and only if \<open>strlen(p_cmd)\<close> is
  0, that is, if no byte was typed or the first byte typed was NUL (which \<open>get_cmd\<close> stores
  like any other byte), and continues.  After a line that starts with another byte there
  is no hint.  The next pass of the loop starts by printing the prompt: when the next byte
  is Ctrl-D the loop ends, and the whole output is the prompt, the line, \<open>^C\<close>, a line
  break, the hint or nothing, the prompt again and a line break.
\<close>

theorem console_run_cancel_hint:
  assumes "set xs \<inter> {3, 4, 13} = {}" and "length xs < DEFAULT_CMD_MAXLEN"
  shows "get_cmd (Some con) (Some (replicate DEFAULT_CMD_MAXLEN 0))
           (printf (cstr ''$ '') (w\<lparr>stdin := map Read_byte xs @- Read_byte 3 ## rest\<rparr>)) =
         Some (1, Some (xs @ replicate (DEFAULT_CMD_MAXLEN - length xs) 0),
               w\<lparr>stdin := rest, stdout := stdout w @ cstr ''$ '' @ xs @ cstr ''^C''\<rparr>)
       \<and> console_run_dispatch
           (1, Some (xs @ replicate (DEFAULT_CMD_MAXLEN - length xs) 0), v) =
         Continue (v\<lparr>stdout := stdout v @ crlf
                                  @ (if xs = [] \<or> hd xs = 0 then hint else [])\<rparr>)
       \<and> console_run_loop (Some con)
           (w\<lparr>stdin := map Read_byte xs @- Read_byte 3 ## Read_byte 4 ## rest\<rparr>) =
         Some (Inr (w\<lparr>stdin := rest,
                      stdout := stdout w @ cstr ''$ '' @ xs @ cstr ''^C'' @ crlf
                                @ (if xs = [] \<or> hd xs = 0 then hint else [])
                                @ cstr ''$ '' @ crlf\<rparr>))"
proof (intro conjI)
  show "get_cmd (Some con) (Some (replicate DEFAULT_CMD_MAXLEN 0))
           (printf (cstr ''$ '') (w\<lparr>stdin := map Read_byte xs @- Read_byte 3 ## rest\<rparr>)) =
         Some (1, Some (xs @ replicate (DEFAULT_CMD_MAXLEN - length xs) 0),
               w\<lparr>stdin := rest, stdout := stdout w @ cstr ''$ '' @ xs @ cstr ''^C''\<rparr>)"
    using assms by (rule get_cmd_prompt_cancel)
  show "console_run_dispatch
           (1, Some (xs @ replicate (DEFAULT_CMD_MAXLEN - length xs) 0), v) =
         Continue (v\<lparr>stdout := stdout v @ crlf
                                  @ (if xs = [] \<or> hd xs = 0 then hint else [])\<rparr>)"
    using assms(2) by (rule console_run_dispatch_typed_cancel)
  show "console_run_loop (Some con)
           (w\<lparr>stdin := map Read_byte xs @- Read_byte 3 ## Read_byte 4 ## rest\<rparr>) =
         Some (Inr (w\<lparr>stdin := rest,
                      stdout := stdout w @ cstr ''$ '' @ xs @ cstr ''^C'' @ crlf
                                @ (if xs = [] \<or> hd xs = 0 then hint else [])
                                @ cstr ''$ '' @ crlf\<rparr>))"
    using assms by (rule console_run_loop_cancel_exit)
qed

theorem console_run_cancel_hint_witness:
  "set [0x6C, 0x73 :: cchar] \<inter> {3, 4, 13} = {}
   \<and> length [0x6C, 0x73 :: cchar] < DEFAULT_CMD_MAXLEN
   \<and> get_cmd (Some main_console) (Some (replicate DEFAULT_CMD_MAXLEN 0))
        (printf (cstr ''$ '')
           (quiet_world\<lparr>stdin := map Read_byte [0x6C, 0x73] @- Read_byte 3 ## sconst Read_eof\<rparr>)) =
      Some (1, Some ([0x6C, 0x73] @ replicate 1022 0),
            quiet_world\<lparr>stdin := sconst Read_eof,
              stdout := [0x24, 0x20, 0x6C, 0x73, 0x5E, 0x43]\<rparr>)
   \<and> console_run_dispatch
        (1, Some ([0x6C, 0x73] @ replicate 1022 0),
         quiet_world\<lparr>stdin := sconst Read_eof, stdout := [0x24, 0x20, 0x6C, 0x73, 0x5E, 0x43]\<rparr>) =
      Continue (quiet_world\<lparr>stdin := sconst Read_eof,
                  stdout := [0x24, 0x20, 0x6C, 0x73, 0x5E, 0x43, 13, 10]\<rparr>)
   \<and> console_run_loop (Some main_console)
        (quiet_world\<lparr>stdin := map Read_byte [0x6C, 0x73] @- Read_byte 3 ## Read_byte 4
                                ## sconst Read_eof\<rparr>) =
      Some (Inr (quiet_world\<lparr>stdin := sconst Read_eof,
                   stdout := [0x24, 0x20, 0x6C, 0x73, 0x5E, 0x43, 13, 10, 0x24, 0x20, 13, 10]\<rparr>))
   \<and> set ([] :: cchar list) \<inter> {3, 4, 13} = {}
   \<and> length ([] :: cchar list) < DEFAULT_CMD_MAXLEN
   \<and> console_run_loop (Some main_console)
        (quiet_world\<lparr>stdin := Read_byte 3 ## Read_byte 4 ## sconst Read_eof\<rparr>) =
      Some (Inr (quiet_world\<lparr>stdin := sconst Read_eof,
                   stdout := [0x24, 0x20, 0x5E, 0x43, 13, 10] @ hint @ [0x24, 0x20, 13, 10]\<rparr>))
   \<and> hint \<noteq> []"
proof -
  have a: "set [0x6C, 0x73 :: cchar] \<inter> {3, 4, 13} = {}"
    and b: "length [0x6C, 0x73 :: cchar] < DEFAULT_CMD_MAXLEN"
    and c: "set ([] :: cchar list) \<inter> {3, 4, 13} = {}"
    and d: "length ([] :: cchar list) < DEFAULT_CMD_MAXLEN"
    by (simp_all add: DEFAULT_CMD_MAXLEN_def)
  note ls = console_run_cancel_hint [OF a b, where w = quiet_world and rest = "sconst Read_eof"
      and con = main_console
      and v = "quiet_world\<lparr>stdin := sconst Read_eof,
                 stdout := [0x24, 0x20, 0x6C, 0x73, 0x5E, 0x43]\<rparr>"]
  note empty = console_run_cancel_hint [where xs = "[]" and w = quiet_world
      and rest = "sconst Read_eof" and con = main_console and v = quiet_world, OF c d]
  have one: "get_cmd (Some main_console) (Some (replicate DEFAULT_CMD_MAXLEN 0))
        (printf (cstr ''$ '')
           (quiet_world\<lparr>stdin := map Read_byte [0x6C, 0x73] @- Read_byte 3 ## sconst Read_eof\<rparr>)) =
      Some (1, Some ([0x6C, 0x73] @ replicate 1022 0),
            quiet_world\<lparr>stdin := sconst Read_eof,
              stdout := [0x24, 0x20, 0x6C, 0x73, 0x5E, 0x43]\<rparr>)"
    using ls [THEN conjunct1]
    by (simp add: DEFAULT_CMD_MAXLEN_def quiet_world_def cstr_def)
  have two: "console_run_dispatch
        (1, Some ([0x6C, 0x73] @ replicate 1022 0),
         quiet_world\<lparr>stdin := sconst Read_eof, stdout := [0x24, 0x20, 0x6C, 0x73, 0x5E, 0x43]\<rparr>) =
      Continue (quiet_world\<lparr>stdin := sconst Read_eof,
                  stdout := [0x24, 0x20, 0x6C, 0x73, 0x5E, 0x43, 13, 10]\<rparr>)"
    using ls [THEN conjunct2, THEN conjunct1]
    by (simp add: DEFAULT_CMD_MAXLEN_def quiet_world_def crlf_def)
  have three: "console_run_loop (Some main_console)
        (quiet_world\<lparr>stdin := map Read_byte [0x6C, 0x73] @- Read_byte 3 ## Read_byte 4
                                ## sconst Read_eof\<rparr>) =
      Some (Inr (quiet_world\<lparr>stdin := sconst Read_eof,
                   stdout := [0x24, 0x20, 0x6C, 0x73, 0x5E, 0x43, 13, 10, 0x24, 0x20, 13, 10]\<rparr>))"
    using ls [THEN conjunct2, THEN conjunct2]
    by (simp add: quiet_world_def cstr_def crlf_def)
  have four: "console_run_loop (Some main_console)
        (quiet_world\<lparr>stdin := Read_byte 3 ## Read_byte 4 ## sconst Read_eof\<rparr>) =
      Some (Inr (quiet_world\<lparr>stdin := sconst Read_eof,
                   stdout := [0x24, 0x20, 0x5E, 0x43, 13, 10] @ hint @ [0x24, 0x20, 13, 10]\<rparr>))"
  proof -
    have "console_run_loop (Some main_console)
            (quiet_world\<lparr>stdin := map Read_byte [] @- Read_byte 3 ## Read_byte 4
                                    ## sconst Read_eof\<rparr>) =
          Some (Inr (quiet_world\<lparr>stdin := sconst Read_eof,
                  stdout := stdout quiet_world @ cstr ''$ '' @ [] @ cstr ''^C'' @ crlf
                            @ (if ([] :: cchar list) = [] \<or> hd [] = (0 :: cchar) then hint else [])
                            @ cstr ''$ '' @ crlf\<rparr>))"
      by (rule empty [THEN conjunct2, THEN conjunct2])
    then show ?thesis
      by (simp add: quiet_world_def cstr_def crlf_def)
  qed
  have five: "hint \<noteq> []"
    by (simp add: hint_def crlf_def)
  from a b one two three c d four five show ?thesis
    by (intro conjI) (simp_all only: simp_thms)
qed

text \<open>
  NUL, then Ctrl-C.  At the moment of cancellation the line is not empty: \<open>get_cmd\<close> has
  stored and echoed one byte, and \<open>cmd_len\<close> is 1.  But that byte is the NUL that ends a C
  string, \<open>strlen(p_cmd)\<close> is 0, and the hint is printed.
\<close>

theorem console_run_cancel_hint_counterexample:
  "get_cmd_loop (-1)
     (printf (cstr ''$ '')
        (quiet_world\<lparr>stdin := map Read_byte [0] @- Read_byte 3 ## sconst Read_eof\<rparr>))
     (get_cmd_init (replicate DEFAULT_CMD_MAXLEN 0)) =
   Some (1, \<lparr>p_cmd = [0] @ replicate 1023 0, cmd_len = 1, cmd_idx = 1\<rparr>,
         quiet_world\<lparr>stdin := sconst Read_eof, stdout := cstr ''$ '' @ [0] @ cstr ''^C''\<rparr>)
   \<and> console_run_dispatch
        (1, Some ([0] @ replicate 1023 0),
         quiet_world\<lparr>stdin := sconst Read_eof, stdout := cstr ''$ '' @ [0] @ cstr ''^C''\<rparr>) =
      Continue (quiet_world\<lparr>stdin := sconst Read_eof,
                  stdout := cstr ''$ '' @ [0] @ cstr ''^C'' @ crlf @ hint\<rparr>)"
proof -
  let ?z = "replicate DEFAULT_CMD_MAXLEN (0 :: cchar)"
  let ?wc = "quiet_world\<lparr>stdin := sconst Read_eof, stdout := cstr ''$ '' @ [0] @ cstr ''^C''\<rparr>"
  have "set [0 :: cchar] \<inter> {3, 4, 13} = {}" by simp
  moreover have "length ?z = DEFAULT_CMD_MAXLEN" by simp
  ultimately have "get_cmd_loop (-1)
      ((printf (cstr ''$ '') quiet_world)
         \<lparr>stdin := map Read_byte [0] @- Read_byte 3 ## sconst Read_eof\<rparr>)
      (get_cmd_init ?z) =
    Some (1, \<lparr>p_cmd = take DEFAULT_CMD_MAXLEN [0]
                       @ drop (length (take DEFAULT_CMD_MAXLEN [0 :: cchar])) ?z,
               cmd_len = length (take DEFAULT_CMD_MAXLEN [0 :: cchar]),
               cmd_idx = length (take DEFAULT_CMD_MAXLEN [0 :: cchar])\<rparr>,
          (printf (cstr ''$ '') quiet_world)\<lparr>stdin := sconst Read_eof,
             stdout := stdout (printf (cstr ''$ '') quiet_world)
                       @ take DEFAULT_CMD_MAXLEN [0] @ cstr ''^C''\<rparr>)"
    by (rule get_cmd_loop_line_ctrl_c)
  then have one: "get_cmd_loop (-1)
     (printf (cstr ''$ '')
        (quiet_world\<lparr>stdin := map Read_byte [0] @- Read_byte 3 ## sconst Read_eof\<rparr>))
     (get_cmd_init ?z) =
     Some (1, \<lparr>p_cmd = [0] @ replicate 1023 0, cmd_len = 1, cmd_idx = 1\<rparr>, ?wc)"
    by (simp add: DEFAULT_CMD_MAXLEN_def quiet_world_def printf_def)
  have "strlen ([] @ replicate 1024 (0 :: cchar)) =
        Some (length (takeWhile (\<lambda>b. b \<noteq> 0) ([] :: cchar list)))"
    by (rule strlen_typed) simp
  moreover have "[0 :: cchar] @ replicate 1023 0 = [] @ replicate 1024 0"
    by (simp add: replicate_Suc [symmetric] del: replicate_Suc)
  ultimately have "strlen ([0 :: cchar] @ replicate 1023 0) = Some 0"
    by simp
  then have "console_run_dispatch (1, Some ([0] @ replicate 1023 0), ?wc) =
             Continue (if (0 :: nat) = 0 then printf hint (printf crlf ?wc) else printf crlf ?wc)"
    by (rule console_run_dispatch_cancel)
  then have two: "console_run_dispatch (1, Some ([0] @ replicate 1023 0), ?wc) =
      Continue (quiet_world\<lparr>stdin := sconst Read_eof,
                  stdout := cstr ''$ '' @ [0] @ cstr ''^C'' @ crlf @ hint\<rparr>)"
    by (simp add: printf_def quiet_world_def)
  from one two show ?thesis by (simp only:)
qed

end
